theory Spec2Isabelle
  imports Main "HOL-Library.Sublist"
begin

section \<open>The file system under the save engine\<close>

text \<open>
  \<^verbatim>\<open>Item.Save\<close> and \<^verbatim>\<open>SaveAssignment\<close> talk to the operating system through
  \<^verbatim>\<open>os.Stat\<close>, \<^verbatim>\<open>os.MkdirAll\<close>, \<^verbatim>\<open>ioutil.WriteFile\<close> and \<^verbatim>\<open>filepath.Dir\<close>.
  The file system is a tree of directories and regular files, keyed by the list of
  path elements from the root directory (key \<open>[]\<close>); there are no symbolic links, and
  path names are resolved from the root directory (an absolute path, or a process
  whose working directory is the root). What the tree does not describe
  (permissions, a read-only volume) is the predicate \<open>denied\<close>: a system call that
  is denied for its path argument fails with \<open>EACCES\<close>. A call that fails changes
  nothing. \<open>writes\<close> is the log of the calls of \<^verbatim>\<open>ioutil.WriteFile\<close> that went
  through: their path arguments, the latest first.
\<close>

datatype node = File string | Directory

datatype errno = ENOENT | ENOTDIR | EISDIR | EACCES

datatype syscall = SYS_stat | SYS_mkdir | SYS_open

record filesys =
  tree :: "string list \<rightharpoonup> node"
  denied :: "syscall \<Rightarrow> string \<Rightarrow> bool"
  writes :: "string list"

text \<open>The elements of a path name: the text between its separators.\<close>

fun split_path :: "string \<Rightarrow> string list" where
  "split_path [] = [[]]"
| "split_path (c # cs) =
     (if c = CHR ''/'' then [] # split_path cs
      else (case split_path cs of [] \<Rightarrow> [[c]] | x # xs \<Rightarrow> (c # x) # xs))"

text \<open>
  Path resolution, as the kernel does it: every element is looked up in a directory
  that must exist; an empty element and \<open>.\<close> stay, \<open>..\<close> goes to the parent. The result
  is the key of the last element, which itself need not exist.
\<close>

fun walk :: "(string list \<rightharpoonup> node) \<Rightarrow> string list \<Rightarrow> string list \<Rightarrow> errno + string list" where
  "walk t cur [] = Inr cur"
| "walk t cur (c # cs) =
     (case t cur of
        None \<Rightarrow> Inl ENOENT
      | Some (File _) \<Rightarrow> Inl ENOTDIR
      | Some Directory \<Rightarrow>
          if c = [] \<or> c = ''.'' then walk t cur cs
          else if c = ''..'' then walk t (butlast cur) cs
          else walk t (cur @ [c]) cs)"

definition lookup_path :: "(string list \<rightharpoonup> node) \<Rightarrow> string \<Rightarrow> errno + node" where
  "lookup_path t p =
     (case walk t [] (split_path p) of
        Inl e \<Rightarrow> Inl e
      | Inr k \<Rightarrow> (case t k of None \<Rightarrow> Inl ENOENT | Some n \<Rightarrow> Inr n))"

definition os_Stat :: "filesys \<Rightarrow> string \<Rightarrow> errno + node" where
  "os_Stat s p = (if denied s SYS_stat p then Inl EACCES else lookup_path (tree s) p)"

definition os_IsNotExist :: "errno \<Rightarrow> bool" where
  "os_IsNotExist e = (e = ENOENT)"

text \<open>
  \<^verbatim>\<open>os.MkdirAll\<close>: the directory and every missing parent are created; a directory
  that is already there is left alone; an element that is a regular file is
  \<open>ENOTDIR\<close>.
\<close>

fun mkdirs :: "(string list \<rightharpoonup> node) \<Rightarrow> string list \<Rightarrow> string list \<Rightarrow> errno + (string list \<rightharpoonup> node)" where
  "mkdirs t cur [] =
     (case t cur of
        None \<Rightarrow> Inl ENOENT
      | Some (File _) \<Rightarrow> Inl ENOTDIR
      | Some Directory \<Rightarrow> Inr t)"
| "mkdirs t cur (c # cs) =
     (case t cur of
        None \<Rightarrow> Inl ENOENT
      | Some (File _) \<Rightarrow> Inl ENOTDIR
      | Some Directory \<Rightarrow>
          if c = [] \<or> c = ''.'' then mkdirs t cur cs
          else if c = ''..'' then mkdirs t (butlast cur) cs
          else (case t (cur @ [c]) of
                  None \<Rightarrow> mkdirs (t(cur @ [c] \<mapsto> Directory)) (cur @ [c]) cs
                | Some _ \<Rightarrow> mkdirs t (cur @ [c]) cs))"

definition os_MkdirAll :: "filesys \<Rightarrow> string \<Rightarrow> errno + filesys" where
  "os_MkdirAll s p =
     (if denied s SYS_mkdir p then Inl EACCES
      else case mkdirs (tree s) [] (split_path p) of
             Inl e \<Rightarrow> Inl e
           | Inr t' \<Rightarrow> Inr (s\<lparr>tree := t'\<rparr>))"

text \<open>
  \<^verbatim>\<open>ioutil.WriteFile\<close> opens with create and truncate: a regular file that is there is
  replaced, a missing one is created in its (existing) directory.
\<close>

definition ioutil_WriteFile :: "filesys \<Rightarrow> string \<Rightarrow> string \<Rightarrow> errno + filesys" where
  "ioutil_WriteFile s p data =
     (if denied s SYS_open p then Inl EACCES
      else case walk (tree s) [] (split_path p) of
             Inl e \<Rightarrow> Inl e
           | Inr k \<Rightarrow>
               (case tree s k of
                  Some Directory \<Rightarrow> Inl EISDIR
                | _ \<Rightarrow> Inr (s\<lparr>tree := (tree s)(k \<mapsto> File data), writes := p # writes s\<rparr>)))"

text \<open>
  \<^verbatim>\<open>filepath.Clean\<close> and \<^verbatim>\<open>filepath.Dir\<close> work on the text of a path only: Clean drops
  empty and \<open>.\<close> elements, cancels an inner \<open>..\<close> against the element before it and
  drops a \<open>..\<close> that begins a rooted path; Directory cleans what stands before the last
  element.
\<close>

fun join :: "string list \<Rightarrow> string" where
  "join [] = []"
| "join [x] = x"
| "join (x # y # ys) = x @ ''/'' @ join (y # ys)"

fun clean_elems :: "bool \<Rightarrow> string list \<Rightarrow> string list \<Rightarrow> string list" where
  "clean_elems rooted out [] = rev out"
| "clean_elems rooted out (c # cs) =
     (if c = [] \<or> c = ''.'' then clean_elems rooted out cs
      else if c = ''..'' then
        (case out of
           [] \<Rightarrow> if rooted then clean_elems rooted [] cs else clean_elems rooted [c] cs
         | e # es \<Rightarrow>
             if e = ''..'' then clean_elems rooted (c # out) cs
             else clean_elems rooted es cs)
      else clean_elems rooted (c # out) cs)"

definition filepath_Clean :: "string \<Rightarrow> string" where
  "filepath_Clean p =
     (let rooted = (p \<noteq> [] \<and> hd p = CHR ''/'');
          body = join (clean_elems rooted [] (split_path p))
      in if rooted then CHR ''/'' # body else if body = [] then ''.'' else body)"

definition filepath_Dir :: "string \<Rightarrow> string" where
  "filepath_Dir p = filepath_Clean (rev (dropWhile (\<lambda>c. c \<noteq> CHR ''/'') (rev p)))"

section \<open>handlers/item.go: Item.Save\<close>

text \<open>
  \<^verbatim>\<open>api.Problem\<close> and the \<^verbatim>\<open>Item\<close> that embeds it. \<open>Files\<close> is a Go map; it is
  given here as the list of its entries in the order in which one \<^verbatim>\<open>range\<close> loop
  visits them (Go leaves that order open, and it may differ from loop to loop).
\<close>

record Problem =
  ID :: string
  TrackID :: string
  Language :: string
  Slug :: string
  Name :: string
  IsFresh :: bool
  Files :: "(string \<times> string) list"

record Item = Problem +
  dir :: string
  isNew :: bool
  isUpdated :: bool

definition Item_Path :: "'a Item_scheme \<Rightarrow> string" where
  "Item_Path it = dir it @ ''/'' @ ID it"

text \<open>The body of the \<^verbatim>\<open>for name, text := range it.Files\<close> loop of \<^verbatim>\<open>Save\<close>.\<close>

fun Save_files :: "Item \<Rightarrow> filesys \<Rightarrow> (string \<times> string) list \<Rightarrow> errno option \<times> Item \<times> filesys" where
  "Save_files it s [] = (None, it, s)"
| "Save_files it s ((name, text) # rest) =
     (let file = dir it @ ''/'' @ ID it @ ''/'' @ name in
      case os_MkdirAll s (filepath_Dir file) of
        Inl err \<Rightarrow> (Some err, it, s)
      | Inr s1 \<Rightarrow>
          (case os_Stat s1 file of
             Inr _ \<Rightarrow> Save_files it s1 rest
           | Inl err \<Rightarrow>
               if \<not> os_IsNotExist err then (Some err, it, s1)
               else
                 let it1 = (if \<not> isNew it then it\<lparr>isUpdated := True\<rparr> else it) in
                 (case ioutil_WriteFile s1 file text of
                    Inl err \<Rightarrow> (Some err, it1, s1)
                  | Inr s2 \<Rightarrow> Save_files it1 s2 rest)))"

text \<open>
  \<^verbatim>\<open>Save\<close> returns the error (\<open>None\<close> is Go's \<^verbatim>\<open>nil\<close>), the item with the flags it has
  set, and the file system it leaves.
\<close>

definition Save :: "Item \<Rightarrow> filesys \<Rightarrow> errno option \<times> Item \<times> filesys" where
  "Save it s =
     (case os_Stat s (Item_Path it) of
        Inl err \<Rightarrow>
          if \<not> os_IsNotExist err then (Some err, it, s)
          else Save_files (it\<lparr>isNew := True\<rparr>) s (Files it)
      | Inr _ \<Rightarrow> Save_files it s (Files it))"

section \<open>main: SaveAssignment\<close>

record Assignment =
  Track :: string
  Slug_a :: string
  Files_a :: "(string \<times> string) list"
  IsFresh_a :: bool

text \<open>The two errors \<^verbatim>\<open>SaveAssignment\<close> builds with \<^verbatim>\<open>fmt.Errorf\<close>, by their operands.\<close>

datatype save_error =
  Error_making_directory string errno
| Error_writing_file string errno

fun SaveAssignment_files :: "string \<Rightarrow> filesys \<Rightarrow> (string \<times> string) list \<Rightarrow> save_error option \<times> filesys" where
  "SaveAssignment_files root s [] = (None, s)"
| "SaveAssignment_files root s ((name, text) # rest) =
     (let file = root @ ''/'' @ name;
          d = filepath_Dir file in
      case os_MkdirAll s d of
        Inl err \<Rightarrow> (Some (Error_making_directory d err), s)
      | Inr s1 \<Rightarrow>
          (case os_Stat s1 file of
             Inr _ \<Rightarrow> SaveAssignment_files root s1 rest
           | Inl err \<Rightarrow>
               if os_IsNotExist err then
                 (case ioutil_WriteFile s1 file text of
                    Inl err \<Rightarrow> (Some (Error_writing_file name err), s1)
                  | Inr s2 \<Rightarrow> SaveAssignment_files root s2 rest)
               else SaveAssignment_files root s1 rest))"

text \<open>
  \<^verbatim>\<open>SaveAssignment\<close> returns the error, the file system it leaves and the lines it
  has printed: the summary line is printed only when the loop went through.
\<close>

definition SaveAssignment :: "string \<Rightarrow> Assignment \<Rightarrow> filesys \<Rightarrow> save_error option \<times> filesys \<times> string list" where
  "SaveAssignment d a s =
     (let root = d @ ''/'' @ Track a @ ''/'' @ Slug_a a in
      case SaveAssignment_files root s (Files_a a) of
        (Some err, s') \<Rightarrow> (Some err, s', [])
      | (None, s') \<Rightarrow>
          (let fresh = (if IsFresh_a a then ''*'' else '' '') in
           (None, s', [fresh @ '' '' @ Track a @ '' - '' @ Slug_a a])))"

text \<open>
  The paths one run has written: the calls of \<^verbatim>\<open>ioutil.WriteFile\<close> logged between the
  state \<open>s\<close> it started in and the state \<open>s'\<close> it left.
\<close>

definition writes_since :: "filesys \<Rightarrow> filesys \<Rightarrow> string list" where
  "writes_since s s' = take (length (writes s') - length (writes s)) (writes s')"

section \<open>main: the test-file check\<close>

definition Version :: string where
  "Version = ''1.7.0''"

text \<open>
  \<^verbatim>\<open>testExtensions\<close> is a Go map from language to suffix; \<^verbatim>\<open>IsTest\<close> ranges over it and
  returns at the first hit, so the order of the entries does not show in its result.
\<close>

definition testExtensions :: "(string \<times> string) list" where
  "testExtensions =
     [(''ruby'', ''_test.rb''),
      (''js'', ''.spec.js''),
      (''elixir'', ''_test.exs''),
      (''clojure'', ''_test.clj''),
      (''python'', ''_test.py''),
      (''go'', ''_test.go''),
      (''haskell'', ''_test.hs''),
      (''cpp'', ''_test.cpp'')]"

text \<open>
  \<^verbatim>\<open>strings.LastIndex(s, sep)\<close>: the index of the last place where \<open>sep\<close> stands in
  \<open>s\<close>, or \<open>-1\<close>. \<open>last_index_from s sep i\<close> looks at the places \<open>i, i - 1, ..., 0\<close>.
\<close>

fun last_index_from :: "string \<Rightarrow> string \<Rightarrow> nat \<Rightarrow> int" where
  "last_index_from s sep 0 = (if take (length sep) s = sep then 0 else - 1)"
| "last_index_from s sep (Suc i) =
     (if take (length sep) (drop (Suc i) s) = sep then int (Suc i)
      else last_index_from s sep i)"

definition strings_LastIndex :: "string \<Rightarrow> string \<Rightarrow> int" where
  "strings_LastIndex s sep =
     (if length s < length sep then - 1 else last_index_from s sep (length s - length sep))"

fun IsTest_range :: "(string \<times> string) list \<Rightarrow> string \<Rightarrow> bool" where
  "IsTest_range [] filename = False"
| "IsTest_range ((lang, ext) # rest) filename =
     (if strings_LastIndex filename ext > 0 then True else IsTest_range rest filename)"

definition IsTest :: "string \<Rightarrow> bool" where
  "IsTest filename = IsTest_range testExtensions filename"

section \<open>main: the exchange with the remote service\<close>

text \<open>
  A Go \<^verbatim>\<open>error\<close> is taken by its message, which is all this program does with one
  (it prints it, or formats it into another message with \<^verbatim>\<open>%v\<close>).
\<close>

type_synonym error = string

text \<open>\<^verbatim>\<open>config.Config\<close>: the fields this program reads.\<close>

record Config =
  Hostname :: string
  APIKey :: string
  Dir :: string

record submitResponse =
  ID_resp :: string
  Status :: string
  Language_resp :: string
  Exercise :: string
  SubmissionPath :: string
  Error :: string

record submitRequest =
  Key :: string
  Code :: string
  Path :: string

text \<open>
  An \<^verbatim>\<open>http.Request\<close> as this program builds one, and what comes back from
  \<^verbatim>\<open>http.DefaultClient.Do\<close>: the status code and the body as \<^verbatim>\<open>ioutil.ReadAll\<close>
  returns it (reading it can fail).
\<close>

record request =
  Method :: string
  URL :: string
  Header :: "string \<rightharpoonup> string"
  Body :: "string option"

record response =
  StatusCode :: int
  ReadAll_Body :: "error + string"

text \<open>
  What the program takes from its platform and libraries, none of it code of this
  repository: the build's \<^verbatim>\<open>runtime.GOOS\<close>, \<^verbatim>\<open>runtime.GOARCH\<close> and
  \<^verbatim>\<open>filepath.Separator\<close>; \<^verbatim>\<open>encoding/json\<close> (one decoder for each type the program
  decodes into); \<^verbatim>\<open>net/http\<close> (\<open>http_NewRequest_error\<close> is the error
  \<^verbatim>\<open>http.NewRequest\<close> returns for a method and URL, if any; \<open>http_Do\<close> is the network
  and the server); \<^verbatim>\<open>config.Read\<close> on the configured file and
  \<^verbatim>\<open>Config.IsAuthenticated\<close>; \<^verbatim>\<open>filepath.Abs\<close>, \<^verbatim>\<open>filepath.EvalSymlinks\<close> and
  \<^verbatim>\<open>ioutil.ReadFile\<close>.
\<close>

record env =
  GOOS :: string
  GOARCH :: string
  Separator :: char
  json_Marshal :: "submitRequest \<Rightarrow> error + string"
  json_Unmarshal_submitResponse :: "string \<Rightarrow> error + submitResponse"
  json_Unmarshal_Error :: "string \<Rightarrow> error + string"
  json_Unmarshal_Assignments :: "string \<Rightarrow> error + Assignment list"
  http_NewRequest_error :: "string \<Rightarrow> string \<Rightarrow> error option"
  http_Do :: "request \<Rightarrow> error + response"
  config_Read :: "error + Config"
  IsAuthenticated :: "Config \<Rightarrow> bool"
  filepath_Abs :: "string \<Rightarrow> error + string"
  filepath_EvalSymlinks :: "string \<Rightarrow> error + string"
  ioutil_ReadFile :: "string \<Rightarrow> error + string"

definition UserAgent :: "env \<Rightarrow> string" where
  "UserAgent e = ''github.com/exercism/cli v'' @ Version @ '' ('' @ GOOS e @ ''/'' @ GOARCH e @ '')''"

definition http_NewRequest :: "env \<Rightarrow> string \<Rightarrow> string \<Rightarrow> string option \<Rightarrow> error + request" where
  "http_NewRequest e meth url body =
     (case http_NewRequest_error e meth url of
        Some err \<Rightarrow> Inl err
      | None \<Rightarrow> Inr \<lparr>Method = meth, URL = url, Header = Map.empty, Body = body\<rparr>)"

text \<open>\<^verbatim>\<open>%d\<close> of an \<^verbatim>\<open>int\<close>, and \<^verbatim>\<open>%v\<close> of a \<^verbatim>\<open>submitResponse\<close> (its fields in braces).\<close>

fun digits :: "nat \<Rightarrow> string" where
  "digits n =
     (if n < 10 then [char_of (48 + n)]
      else digits (n div 10) @ [char_of (48 + n mod 10)])"

definition fmt_d :: "int \<Rightarrow> string" where
  "fmt_d i = (if i < 0 then CHR ''-'' # digits (nat (- i)) else digits (nat i))"

definition fmt_v :: "submitResponse \<Rightarrow> string" where
  "fmt_v r =
     ''{'' @ ID_resp r @ '' '' @ Status r @ '' '' @ Language_resp r @ '' '' @ Exercise r @ '' '' @
       SubmissionPath r @ '' '' @ Error r @ ''}''"

text \<open>
  The three functions that talk to the service return, next to their Go results,
  the requests they have handed to \<^verbatim>\<open>http.DefaultClient.Do\<close>.
\<close>

definition FetchAssignments :: "env \<Rightarrow> Config \<Rightarrow> string \<Rightarrow> request list \<times> (error + Assignment list)" where
  "FetchAssignments e c path =
     (let url = Hostname c @ path @ ''?key='' @ APIKey c in
      case http_NewRequest e ''GET'' url None of
        Inl err \<Rightarrow> ([], Inl err)
      | Inr req \<Rightarrow>
          (case http_Do e req of
             Inl err \<Rightarrow> ([req], Inl (''Error fetching assignments: ['' @ err @ '']''))
           | Inr resp \<Rightarrow>
               (case ReadAll_Body resp of
                  Inl err \<Rightarrow> ([req], Inl (''Error fetching assignments: ['' @ err @ '']''))
                | Inr body \<Rightarrow>
                    if StatusCode resp \<noteq> 200 then
                      (case json_Unmarshal_Error e body of
                         Inl err \<Rightarrow> ([req], Inl (''Error parsing API response: ['' @ err @ '']''))
                       | Inr apiError \<Rightarrow>
                           ([req], Inl (''Error fetching assignments. HTTP Status Code: '' @
                              fmt_d (StatusCode resp) @ [char_of (10 :: nat)] @ apiError)))
                    else
                      (case json_Unmarshal_Assignments e body of
                         Inl err \<Rightarrow> ([req], Inl (''Error parsing API response: ['' @ err @ '']''))
                       | Inr assignments \<Rightarrow> ([req], Inr assignments)))))"

definition UnsubmitAssignment :: "env \<Rightarrow> Config \<Rightarrow> request list \<times> error option" where
  "UnsubmitAssignment e c =
     (let path = ''api/v1/user/assignments'';
          url = Hostname c @ ''/'' @ path @ ''?key='' @ APIKey c in
      case http_NewRequest e ''DELETE'' url None of
        Inl err \<Rightarrow> ([], Some err)
      | Inr req0 \<Rightarrow>
          (let req = req0\<lparr>Header := (Header req0)(''User-Agent'' \<mapsto> UserAgent e)\<rparr> in
           case http_Do e req of
             Inl err \<Rightarrow> ([req], Some (''Error destroying submission: ['' @ err @ '']''))
           | Inr resp \<Rightarrow>
               (case ReadAll_Body resp of
                  Inl err \<Rightarrow> ([req], Some err)
                | Inr body \<Rightarrow>
                    if StatusCode resp \<noteq> 204 then
                      (case json_Unmarshal_Error e body of
                         Inl err \<Rightarrow> ([req], Some err)
                       | Inr ur \<Rightarrow>
                           ([req], Some (''Status: '' @ fmt_d (StatusCode resp) @ '', Error: '' @ ur)))
                    else ([req], None))))"

definition SubmitAssignment :: "env \<Rightarrow> Config \<Rightarrow> string \<Rightarrow> string \<Rightarrow> request list \<times> (error + submitResponse)" where
  "SubmitAssignment e c filePath code =
     (let path = ''api/v1/user/assignments'';
          url = Hostname c @ ''/'' @ path;
          submission = \<lparr>Key = APIKey c, Code = code, Path = filePath\<rparr> in
      case json_Marshal e submission of
        Inl err \<Rightarrow> ([], Inl err)
      | Inr submissionJSON \<Rightarrow>
          (case http_NewRequest e ''POST'' url (Some submissionJSON) of
             Inl err \<Rightarrow> ([], Inl err)
           | Inr req0 \<Rightarrow>
               (let req = req0\<lparr>Header := (Header req0)
                            (''User-Agent'' \<mapsto> UserAgent e, ''Content-Type'' \<mapsto> ''application/json'')\<rparr> in
                case http_Do e req of
                  Inl err \<Rightarrow> ([req], Inl (''Error posting assignment: ['' @ err @ '']''))
                | Inr resp \<Rightarrow>
                    (case ReadAll_Body resp of
                       Inl err \<Rightarrow> ([req], Inl err)
                     | Inr body \<Rightarrow>
                         if StatusCode resp \<noteq> 201 then
                           (case json_Unmarshal_submitResponse e body of
                              Inl err \<Rightarrow> ([req], Inl err)
                            | Inr r \<Rightarrow>
                                ([req], Inl (''Status: '' @ fmt_d (StatusCode resp) @ '', Error: '' @ fmt_v r)))
                         else
                           (case json_Unmarshal_submitResponse e body of
                              Inl err \<Rightarrow> ([req], Inl (''Error parsing API response: ['' @ err @ '']''))
                            | Inr r \<Rightarrow> ([req], Inr r))))))"

section \<open>main: the submit action\<close>

definition msgPleaseAuthenticate :: string where
  "msgPleaseAuthenticate = ''You must be authenticated. Run `exercism configure --key=YOUR_API_KEY`.''"

definition absolutePath :: "env \<Rightarrow> string \<Rightarrow> error + string" where
  "absolutePath e path =
     (case filepath_Abs e path of
        Inl err \<Rightarrow> Inl err
      | Inr path' \<Rightarrow> filepath_EvalSymlinks e path')"

definition strings_HasPrefix :: "string \<Rightarrow> string \<Rightarrow> bool" where
  "strings_HasPrefix s pre = (length pre \<le> length s \<and> take (length pre) s = pre)"

text \<open>
  Lines 153 to 171 of the action: from the file name on the command line to the
  absolute path and the path relative to \<^verbatim>\<open>c.Dir\<close>, or to the line the action prints
  before it returns.
\<close>

definition submit_filename :: "env \<Rightarrow> Config \<Rightarrow> string \<Rightarrow> string + string \<times> string" where
  "submit_filename e c filename =
     (case absolutePath e filename of
        Inl err \<Rightarrow> Inl (''Couldn't find '' @ filename @ '': '' @ err)
      | Inr absPath \<Rightarrow>
          (let exDir = Dir c @ [Separator e] in
           if \<not> strings_HasPrefix absPath exDir then
             Inl (absPath @ '' is not under your exercism project path ('' @ exDir @ '')'')
           else
             (let filename' = drop (length exDir) absPath in
              if IsTest filename' then
                Inl ''It looks like this is a test, please submit a solution.''
              else Inr (absPath, filename'))))"

text \<open>
  The action of the \<^verbatim>\<open>submit\<close> command, from its arguments: the requests it has sent
  and the lines it has printed.
\<close>

definition submit :: "env \<Rightarrow> string list \<Rightarrow> request list \<times> string list" where
  "submit e args =
     (if length args = 0 then ([], [''Please enter a file name''])
      else
        case config_Read e of
          Inl err \<Rightarrow> ([], [err])
        | Inr c \<Rightarrow>
            if \<not> IsAuthenticated e c then ([], [msgPleaseAuthenticate])
            else
              (case submit_filename e c (args ! 0) of
                 Inl line \<Rightarrow> ([], [line])
               | Inr (absPath, filename) \<Rightarrow>
                   (case ioutil_ReadFile e absPath of
                      Inl err \<Rightarrow> ([], [''Error reading '' @ absPath @ '': '' @ err])
                    | Inr code \<Rightarrow>
                        (case SubmitAssignment e c filename code of
                           (sent, Inl err) \<Rightarrow>
                             (sent, [''There was an issue with your submission: '' @ err])
                         | (sent, Inr response) \<Rightarrow>
                             (sent, [''For feedback on your submission visit '' @ Hostname c @
                                ''/submissions/'' @ ID_resp response])))))"

section \<open>Example states\<close>

text \<open>
  Concrete file systems, items, assignments and platforms, on which the theorems
  below are instantiated. \<open>fs_empty\<close> has the root directory and nothing else;
  \<open>fs_bob\<close> has the exercise directory \<^verbatim>\<open>/ex/ruby/bob\<close> with the user's own
  \<^verbatim>\<open>bob.rb\<close>; \<open>fs_bob_full\<close> has the test file as well; \<open>fs_readonly\<close> is \<open>fs_bob\<close>
  on a volume that refuses every open for writing; \<open>fs_nostat\<close> is \<open>fs_bob\<close> where
  the stat of the test file's path is refused, and \<open>fs_blind\<close> is \<open>fs_bob\<close> where
  every stat is refused; in \<open>fs_exfile\<close> the name \<^verbatim>\<open>/ex\<close> is a regular file, and in
  \<open>fs_bob_is_file\<close> the name \<^verbatim>\<open>/ex/ruby/bob\<close> is one; \<open>fs_ex\<close> has the exercise root
  \<^verbatim>\<open>/ex\<close> and nothing under it.
\<close>

definition fs_empty :: filesys where
  "fs_empty = \<lparr>tree = [[] \<mapsto> Directory], denied = (\<lambda>call p. False), writes = []\<rparr>"

definition fs_bob :: filesys where
  "fs_bob =
     \<lparr>tree = [[] \<mapsto> Directory, [''ex''] \<mapsto> Directory, [''ex'', ''ruby''] \<mapsto> Directory,
              [''ex'', ''ruby'', ''bob''] \<mapsto> Directory,
              [''ex'', ''ruby'', ''bob'', ''bob.rb''] \<mapsto> File ''mine''],
      denied = (\<lambda>call p. False), writes = []\<rparr>"

definition fs_bob_full :: filesys where
  "fs_bob_full =
     \<lparr>tree = [[] \<mapsto> Directory, [''ex''] \<mapsto> Directory, [''ex'', ''ruby''] \<mapsto> Directory,
              [''ex'', ''ruby'', ''bob''] \<mapsto> Directory,
              [''ex'', ''ruby'', ''bob'', ''bob.rb''] \<mapsto> File ''mine'',
              [''ex'', ''ruby'', ''bob'', ''bob_test.rb''] \<mapsto> File ''my test''],
      denied = (\<lambda>call p. False), writes = []\<rparr>"

definition item_bob :: Item where
  "item_bob =
     \<lparr>ID = ''ruby/bob'', TrackID = ''ruby'', Language = ''ruby'', Slug = ''bob'', Name = ''Bob'',
      IsFresh = False, Files = [(''bob.rb'', ''theirs''), (''bob_test.rb'', ''test'')],
      dir = ''/ex'', isNew = False, isUpdated = False\<rparr>"

definition assignment_bob :: Assignment where
  "assignment_bob =
     \<lparr>Track = ''ruby'', Slug_a = ''bob'',
      Files_a = [(''bob.rb'', ''theirs''), (''bob_test.rb'', ''test'')], IsFresh_a = False\<rparr>"

definition fs_readonly :: filesys where
  "fs_readonly = fs_bob\<lparr>denied := (\<lambda>call p. call = SYS_open)\<rparr>"

definition fs_nostat :: filesys where
  "fs_nostat = fs_bob\<lparr>denied := (\<lambda>call p. call = SYS_stat \<and> p = ''/ex/ruby/bob/bob_test.rb'')\<rparr>"

definition fs_exfile :: filesys where
  "fs_exfile =
     \<lparr>tree = [[] \<mapsto> Directory, [''ex''] \<mapsto> File ''not a directory''],
      denied = (\<lambda>call p. False), writes = []\<rparr>"

definition fs_ex :: filesys where
  "fs_ex = \<lparr>tree = [[] \<mapsto> Directory, [''ex''] \<mapsto> Directory], denied = (\<lambda>call p. False), writes = []\<rparr>"

definition fs_bob_is_file :: filesys where
  "fs_bob_is_file =
     \<lparr>tree = [[] \<mapsto> Directory, [''ex''] \<mapsto> Directory, [''ex'', ''ruby''] \<mapsto> Directory,
              [''ex'', ''ruby'', ''bob''] \<mapsto> File ''not a directory''],
      denied = (\<lambda>call p. False), writes = []\<rparr>"

definition fs_blind :: filesys where
  "fs_blind = fs_bob\<lparr>denied := (\<lambda>call p. call = SYS_stat)\<rparr>"

definition item_none :: Item where
  "item_none = item_bob\<lparr>Files := []\<rparr>"

definition assignment_none :: Assignment where
  "assignment_none = assignment_bob\<lparr>Files_a := []\<rparr>"

definition assignment_test :: Assignment where
  "assignment_test = assignment_bob\<lparr>Files_a := [(''bob_test.rb'', ''test'')]\<rparr>"

text \<open>
  A platform for the exchange with the service: Linux on amd64, a configuration
  with a key, path names that are absolute and free of links already, a decoder
  that knows the two bodies of the service's examples, and a server that answers
  a POST with 201 and the first of them. \<open>env_rejected\<close> is the same platform with
  a server that answers 422 and the second body; the server of \<open>env_gateway\<close>
  answers 502 with a page that is not JSON.
\<close>

definition config_u :: Config where
  "config_u = \<lparr>Hostname = ''http://exercism.io'', APIKey = ''abc'', Dir = ''/home/u/exercism''\<rparr>"

definition response_created :: submitResponse where
  "response_created =
     \<lparr>ID_resp = ''42'', Status = ''ok'', Language_resp = '''', Exercise = '''',
      SubmissionPath = '''', Error = ''''\<rparr>"

definition response_rejected :: submitResponse where
  "response_rejected =
     \<lparr>ID_resp = '''', Status = '''', Language_resp = '''', Exercise = '''',
      SubmissionPath = '''', Error = ''bad file''\<rparr>"

definition env_created :: env where
  \<open>env_created =
     \<lparr>GOOS = ''linux'', GOARCH = ''amd64'', Separator = CHR ''/'',
      json_Marshal = (\<lambda>r. Inr (''{"key":"'' @ Key r @ ''","code":"'' @ Code r @ ''","path":"'' @ Path r @ ''"}'')),
      json_Unmarshal_submitResponse =
        (\<lambda>body. if body = ''{"id":"42","status":"ok"}'' then Inr response_created
                else if body = ''{"error":"bad file"}'' then Inr response_rejected
                else Inl ''invalid character '<' looking for beginning of value''),
      json_Unmarshal_Error = (\<lambda>body. Inl ''unexpected end of JSON input''),
      json_Unmarshal_Assignments = (\<lambda>body. Inr []),
      http_NewRequest_error = (\<lambda>meth url. None),
      http_Do =
        (\<lambda>req. if Method req = ''POST''
               then Inr \<lparr>StatusCode = 201, ReadAll_Body = Inr ''{"id":"42","status":"ok"}''\<rparr>
               else if Method req = ''DELETE''
               then Inr \<lparr>StatusCode = 204, ReadAll_Body = Inr ''''\<rparr>
               else Inr \<lparr>StatusCode = 200, ReadAll_Body = Inr ''{"assignments":[]}''\<rparr>),
      config_Read = Inr config_u,
      IsAuthenticated = (\<lambda>c. APIKey c \<noteq> ''''),
      filepath_Abs = (\<lambda>p. Inr p),
      filepath_EvalSymlinks = (\<lambda>p. Inr p),
      ioutil_ReadFile = (\<lambda>p. Inr ''print 1'')\<rparr>\<close>

definition env_rejected :: env where
  \<open>env_rejected =
     env_created\<lparr>http_Do := (\<lambda>req. Inr \<lparr>StatusCode = 422, ReadAll_Body = Inr ''{"error":"bad file"}''\<rparr>)\<rparr>\<close>

definition env_gateway :: env where
  \<open>env_gateway =
     env_created\<lparr>http_Do := (\<lambda>req. Inr \<lparr>StatusCode = 502, ReadAll_Body = Inr ''<html>Bad Gateway</html>''\<rparr>)\<rparr>\<close>

section \<open>Properties of the file system operations\<close>

lemma split_path_not_Nil: "split_path p \<noteq> []"
  by (induction p) (auto split: list.splits)

lemma split_path_append:
  "split_path (a @ CHR ''/'' # b) = split_path a @ split_path b"
  by (induction a) (auto split: list.splits simp: split_path_not_Nil)

lemma walk_append:
  "walk t cur (as @ bs) = (case walk t cur as of Inl e \<Rightarrow> Inl e | Inr k \<Rightarrow> walk t k bs)"
  by (induction as arbitrary: cur) (auto split: option.splits node.splits)

lemma walk_mono:
  "t \<subseteq>\<^sub>m t' \<Longrightarrow> walk t cur cs = Inr k \<Longrightarrow> walk t' cur cs = Inr k"
proof (induction cs arbitrary: cur)
  case Nil
  then show ?case by simp
next
  case (Cons c cs)
  from Cons.prems(2) have d: "t cur = Some Directory"
    by (auto split: option.splits node.splits)
  with Cons.prems(1) have d': "t' cur = Some Directory"
    by (metis domI map_le_def)
  from Cons.prems(2) d Cons.IH[OF Cons.prems(1)] show ?case
    by (auto simp: d' split: if_splits)
qed

lemma lookup_path_mono:
  "t \<subseteq>\<^sub>m t' \<Longrightarrow> lookup_path t p = Inr n \<Longrightarrow> lookup_path t' p = Inr n"
proof -
  assume le: "t \<subseteq>\<^sub>m t'" and l: "lookup_path t p = Inr n"
  from l obtain k where k: "walk t [] (split_path p) = Inr k" and n: "t k = Some n"
    by (auto simp: lookup_path_def split: sum.splits option.splits)
  from le k have "walk t' [] (split_path p) = Inr k" by (rule walk_mono)
  moreover from le n have "t' k = Some n" by (metis domI map_le_def)
  ultimately show ?thesis by (simp add: lookup_path_def)
qed

lemma mkdirs_le: "mkdirs t cur cs = Inr t' \<Longrightarrow> t \<subseteq>\<^sub>m t'"
proof (induction cs arbitrary: t cur)
  case Nil
  then show ?case by (auto split: option.splits node.splits)
next
  case (Cons c cs)
  show ?case
  proof (cases "c = [] \<or> c = ''.'' \<or> c = ''..'' \<or> t (cur @ [c]) \<noteq> None")
    case True
    with Cons.prems Cons.IH show ?thesis
      by (auto split: option.splits node.splits if_splits)
  next
    case False
    with Cons.prems have "mkdirs (t(cur @ [c] \<mapsto> Directory)) (cur @ [c]) cs = Inr t'"
      by (auto split: option.splits node.splits if_splits)
    then have "t(cur @ [c] \<mapsto> Directory) \<subseteq>\<^sub>m t'" by (rule Cons.IH)
    moreover from False have "t \<subseteq>\<^sub>m t(cur @ [c] \<mapsto> Directory)"
      by (auto simp: map_le_def)
    ultimately show ?thesis by (rule map_le_trans[rotated])
  qed
qed

lemma mkdirs_stable:
  "mkdirs t cur cs = Inr t' \<Longrightarrow> t' \<subseteq>\<^sub>m u \<Longrightarrow> mkdirs u cur cs = Inr u"
proof (induction cs arbitrary: t cur)
  case Nil
  then show ?case
    by (auto split: option.splits node.splits simp: map_le_def dom_def)
next
  case (Cons c cs)
  from Cons.prems(1) have d: "t cur = Some Directory"
    by (auto split: option.splits node.splits)
  have tt': "t \<subseteq>\<^sub>m t'" using Cons.prems(1) by (rule mkdirs_le)
  from tt' Cons.prems(2) have tu: "t \<subseteq>\<^sub>m u" by (rule map_le_trans)
  with d have du: "u cur = Some Directory" by (metis domI map_le_def)
  show ?case
  proof (cases "c = [] \<or> c = ''.'' \<or> c = ''..''")
    case True
    with Cons.prems d Cons.IH du show ?thesis
      by (auto split: if_splits)
  next
    case False
    let ?k = "cur @ [c]"
    from False Cons.prems(1) d obtain t1 where
      t1: "mkdirs t1 ?k cs = Inr t'" and "t1 ?k \<noteq> None"
      by (auto split: option.splits if_splits)
    from t1 have "mkdirs u ?k cs = Inr u" using Cons.prems(2) by (rule Cons.IH)
    moreover have "u ?k \<noteq> None"
    proof -
      from t1 have "t1 \<subseteq>\<^sub>m t'" by (rule mkdirs_le)
      with \<open>t1 ?k \<noteq> None\<close> Cons.prems(2) show ?thesis
        by (metis domIff map_le_def)
    qed
    ultimately show ?thesis using False du by auto
  qed
qed


lemma os_MkdirAll_le:
  assumes "os_MkdirAll s p = Inr s1"
  shows "tree s \<subseteq>\<^sub>m tree s1" and "denied s1 = denied s" and "writes s1 = writes s"
  using assms
  by (auto simp: os_MkdirAll_def split: if_splits sum.splits dest: mkdirs_le)

lemma os_MkdirAll_stable:
  assumes "os_MkdirAll s p = Inr s1" and "tree s1 \<subseteq>\<^sub>m tree u" and "denied u = denied s"
  shows "os_MkdirAll u p = Inr u"
proof -
  from assms(1) obtain t' where nd: "\<not> denied s SYS_mkdir p"
    and m: "mkdirs (tree s) [] (split_path p) = Inr t'" and s1: "s1 = s\<lparr>tree := t'\<rparr>"
    by (auto simp: os_MkdirAll_def split: if_splits sum.splits)
  from s1 assms(2) have "t' \<subseteq>\<^sub>m tree u" by simp
  with m have "mkdirs (tree u) [] (split_path p) = Inr (tree u)" by (rule mkdirs_stable)
  with nd assms(3) show ?thesis by (simp add: os_MkdirAll_def)
qed

lemma os_Stat_mono:
  assumes "os_Stat s p = Inr n" and "tree s \<subseteq>\<^sub>m tree u" and "denied u = denied s"
  shows "os_Stat u p = Inr n"
  using assms
  by (auto simp: os_Stat_def split: if_splits dest: lookup_path_mono)

lemma ioutil_WriteFile_new:
  assumes st: "os_Stat s p = Inl e" and ne: "os_IsNotExist e"
    and w: "ioutil_WriteFile s p c = Inr s2"
  shows "tree s \<subseteq>\<^sub>m tree s2" and "denied s2 = denied s" and "writes s2 = p # writes s"
    and "os_Stat s2 p = Inr (File c)"
proof -
  from w obtain k where nd: "\<not> denied s SYS_open p"
    and k: "walk (tree s) [] (split_path p) = Inr k"
    and s2: "s2 = s\<lparr>tree := (tree s)(k \<mapsto> File c), writes := p # writes s\<rparr>"
    by (auto simp: ioutil_WriteFile_def split: if_splits sum.splits option.splits node.splits)
  from st ne have ns: "\<not> denied s SYS_stat p"
    by (auto simp: os_Stat_def os_IsNotExist_def split: if_splits)
  with st ne k have none: "tree s k = None"
    by (auto simp: os_Stat_def os_IsNotExist_def lookup_path_def split: option.splits)
  from none s2 show le: "tree s \<subseteq>\<^sub>m tree s2" by (auto simp: map_le_def)
  from s2 show "denied s2 = denied s" and "writes s2 = p # writes s" by simp_all
  from le k have "walk (tree s2) [] (split_path p) = Inr k" by (rule walk_mono)
  with ns s2 show "os_Stat s2 p = Inr (File c)"
    by (simp add: os_Stat_def lookup_path_def)
qed

lemma walk_err_mono:
  "t \<subseteq>\<^sub>m t' \<Longrightarrow> walk t cur cs = Inl e \<Longrightarrow> e \<noteq> ENOENT \<Longrightarrow> walk t' cur cs = Inl e"
proof (induction cs arbitrary: cur)
  case Nil
  then show ?case by simp
next
  case (Cons c cs)
  from Cons.prems(2,3) obtain n where n: "t cur = Some n"
    by (auto split: option.splits)
  with Cons.prems(1) have n': "t' cur = Some n" by (metis domI map_le_def)
  show ?case
  proof (cases n)
    case (File x)
    with n n' Cons.prems(2) show ?thesis by simp
  next
    case Directory
    with n n' Cons.prems(2) Cons.IH[OF Cons.prems(1) _ Cons.prems(3)] show ?thesis
      by (auto split: if_splits)
  qed
qed

lemma os_Stat_settled:
  assumes "os_Stat s p \<noteq> Inl ENOENT" and "tree s \<subseteq>\<^sub>m tree u" and "denied u = denied s"
  shows "os_Stat u p = os_Stat s p"
proof (cases "denied s SYS_stat p")
  case True
  with assms(3) show ?thesis by (simp add: os_Stat_def)
next
  case False
  show ?thesis
  proof (cases "lookup_path (tree s) p")
    case (Inr n)
    with False have "os_Stat s p = Inr n" by (simp add: os_Stat_def)
    from os_Stat_mono[OF this assms(2,3)] this show ?thesis by simp
  next
    case (Inl e)
    with False assms(1) have ne: "e \<noteq> ENOENT" by (auto simp: os_Stat_def)
    with Inl have "walk (tree s) [] (split_path p) = Inl e"
      by (auto simp: lookup_path_def split: sum.splits option.splits)
    from walk_err_mono[OF assms(2) this ne] have "lookup_path (tree u) p = Inl e"
      by (simp add: lookup_path_def)
    with Inl False assms(3) show ?thesis by (simp add: os_Stat_def)
  qed
qed

lemma lookup_path_parent:
  assumes "lookup_path t (P @ CHR ''/'' # name) = Inr n"
  shows "lookup_path t P = Inr Directory"
proof -
  obtain b bs where b: "split_path name = b # bs"
    using split_path_not_Nil[of name] by (cases "split_path name") auto
  from assms obtain k' where
    "walk t [] (split_path P @ split_path name) = Inr k'"
    by (auto simp: lookup_path_def split_path_append split: sum.splits)
  then obtain k where k: "walk t [] (split_path P) = Inr k" and "walk t k (b # bs) = Inr k'"
    by (auto simp: walk_append b split: sum.splits)
  then have "t k = Some Directory" by (auto split: option.splits node.splits)
  with k show ?thesis by (simp add: lookup_path_def)
qed

section \<open>Properties of the loop of Item.Save\<close>

lemma Save_files_Cons_cases [consumes 1, case_names mkdir_fail exists stat_fail write_fail written]:
  fixes it :: Item
  defines "file \<equiv> \<lambda>it name. dir it @ ''/'' @ ID it @ ''/'' @ name"
    and "it1 \<equiv> \<lambda>it. (if \<not> isNew it then it\<lparr>isUpdated := True\<rparr> else it)"
  assumes r: "Save_files it s ((name, c) # rest) = r"
  obtains
    (mkdir_fail) err where "os_MkdirAll s (filepath_Dir (file it name)) = Inl err" "r = (Some err, it, s)"
  | (exists) s1 n where "os_MkdirAll s (filepath_Dir (file it name)) = Inr s1" "os_Stat s1 (file it name) = Inr n"
      "r = Save_files it s1 rest"
  | (stat_fail) s1 err where "os_MkdirAll s (filepath_Dir (file it name)) = Inr s1" "os_Stat s1 (file it name) = Inl err"
      "\<not> os_IsNotExist err" "r = (Some err, it, s1)"
  | (write_fail) s1 e err where "os_MkdirAll s (filepath_Dir (file it name)) = Inr s1" "os_Stat s1 (file it name) = Inl e"
      "os_IsNotExist e" "ioutil_WriteFile s1 (file it name) c = Inl err" "r = (Some err, it1 it, s1)"
  | (written) s1 e s2 where "os_MkdirAll s (filepath_Dir (file it name)) = Inr s1" "os_Stat s1 (file it name) = Inl e"
      "os_IsNotExist e" "ioutil_WriteFile s1 (file it name) c = Inr s2" "r = Save_files (it1 it) s2 rest"
  using r unfolding file_def it1_def
  by (auto simp: Let_def split: sum.splits if_splits)

lemma Save_files_grows:
  assumes "Save_files it s fs = (e, it', s')"
  shows "tree s \<subseteq>\<^sub>m tree s' \<and> denied s' = denied s"
  using assms
proof (induction fs arbitrary: it s)
  case Nil
  then show ?case by simp
next
  case (Cons f fs)
  obtain name c where f: "f = (name, c)" by (cases f)
  from Cons.prems[unfolded f] show ?case
  proof (cases rule: Save_files_Cons_cases)
    case (mkdir_fail err)
    then show ?thesis by simp
  next
    case (exists s1 n)
    from exists(3) Cons.IH[of it s1] have "tree s1 \<subseteq>\<^sub>m tree s' \<and> denied s' = denied s1" by simp
    with os_MkdirAll_le[OF exists(1)] show ?thesis by (auto intro: map_le_trans)
  next
    case (stat_fail s1 err)
    with os_MkdirAll_le[OF stat_fail(1)] show ?thesis by simp
  next
    case (write_fail s1 en err)
    with os_MkdirAll_le[OF write_fail(1)] show ?thesis by simp
  next
    case (written s1 en s2)
    from written(5) Cons.IH[of _ s2] have "tree s2 \<subseteq>\<^sub>m tree s' \<and> denied s' = denied s2" by simp
    with os_MkdirAll_le[OF written(1)] ioutil_WriteFile_new[OF written(2,3,4)]
    show ?thesis by (auto intro: map_le_trans)
  qed
qed


lemma Save_files_flags:
  assumes "Save_files it s fs = (e, it', s')"
  shows "it' = it \<or> (\<not> isNew it \<and> it' = it\<lparr>isUpdated := True\<rparr>)"
  using assms
proof (induction fs arbitrary: it s)
  case Nil
  then show ?case by simp
next
  case (Cons f fs)
  obtain name c where f: "f = (name, c)" by (cases f)
  from Cons.prems[unfolded f] show ?case
  proof (cases rule: Save_files_Cons_cases)
    case (exists s1 n)
    then show ?thesis using Cons.IH[of it s1] by simp
  next
    case (written s1 en s2)
    then show ?thesis
      using Cons.IH[of "if \<not> isNew it then it\<lparr>isUpdated := True\<rparr> else it" s2]
      by (auto split: if_splits)
  qed auto
qed

lemma Save_files_writes:
  assumes "Save_files it s fs = (e, it', s')"
  shows "\<exists>new. writes s' = new @ writes s \<and>
           (new \<noteq> [] \<longrightarrow> it' = (if \<not> isNew it then it\<lparr>isUpdated := True\<rparr> else it)) \<and>
           (\<forall>p \<in> set new. \<forall>n. lookup_path (tree s) p \<noteq> Inr n)"
  using assms
proof (induction fs arbitrary: it s)
  case Nil
  then show ?case by simp
next
  case (Cons f fs)
  obtain name c where f: "f = (name, c)" by (cases f)
  let ?file = "dir it @ ''/'' @ ID it @ ''/'' @ name"
  let ?it1 = "if \<not> isNew it then it\<lparr>isUpdated := True\<rparr> else it"
  from Cons.prems[unfolded f] show ?case
  proof (cases rule: Save_files_Cons_cases)
    case (mkdir_fail err)
    then show ?thesis by simp
  next
    case (exists s1 n)
    note m = os_MkdirAll_le[OF exists(1)]
    from exists(3) Cons.IH[of it s1] obtain new where
      new: "writes s' = new @ writes s1"
        "new \<noteq> [] \<longrightarrow> it' = ?it1"
        "\<forall>p \<in> set new. \<forall>n. lookup_path (tree s1) p \<noteq> Inr n"
      by auto
    have "\<forall>p \<in> set new. \<forall>n. lookup_path (tree s) p \<noteq> Inr n"
      using new(3) lookup_path_mono[OF m(1)] by blast
    with new(1,2) m(3) show ?thesis by auto
  next
    case (stat_fail s1 err)
    with os_MkdirAll_le[OF stat_fail(1)] show ?thesis by simp
  next
    case (write_fail s1 en err)
    with os_MkdirAll_le[OF write_fail(1)] show ?thesis by simp
  next
    case (written s1 en s2)
    note m = os_MkdirAll_le[OF written(1)]
    note w = ioutil_WriteFile_new[OF written(2,3,4)]
    from written(5) Cons.IH[of ?it1 s2] obtain new where
      new: "writes s' = new @ writes s2"
        "\<forall>p \<in> set new. \<forall>n. lookup_path (tree s2) p \<noteq> Inr n"
      by auto
    from written(5) have fl: "it' = ?it1"
      using Save_files_flags[of ?it1 s2 fs e it' s'] Cons.prems by (auto split: if_splits)
    have le: "tree s \<subseteq>\<^sub>m tree s2" using m(1) w(1) by (rule map_le_trans)
    have dn: "denied s2 = denied s" using m(2) w(2) by simp
    have old: "\<forall>p \<in> set new. \<forall>n. lookup_path (tree s) p \<noteq> Inr n"
      using new(2) lookup_path_mono[OF le] by blast
    from written(2,3) have "lookup_path (tree s1) ?file = Inl ENOENT"
      by (auto simp: os_Stat_def os_IsNotExist_def split: if_splits)
    then have "\<forall>n. lookup_path (tree s) ?file \<noteq> Inr n"
      using lookup_path_mono[OF m(1)] by force
    with old new(1) w(3) m(3) fl show ?thesis
      by (intro exI[of _ "new @ [?file]"]) auto
  qed
qed


text \<open>After a run without error, every entry's directory and file are there.\<close>

lemma Save_files_done:
  assumes "Save_files it s fs = (None, it', s')" and "(name, c) \<in> set fs"
  shows "os_MkdirAll s' (filepath_Dir (dir it @ ''/'' @ ID it @ ''/'' @ name)) = Inr s' \<and>
         (\<exists>n. os_Stat s' (dir it @ ''/'' @ ID it @ ''/'' @ name) = Inr n)"
  using assms
proof (induction fs arbitrary: it s)
  case Nil
  then show ?case by simp
next
  case (Cons f fs)
  obtain name0 c0 where f: "f = (name0, c0)" by (cases f)
  let ?file = "dir it @ ''/'' @ ID it @ ''/'' @ name0"
  let ?it1 = "if \<not> isNew it then it\<lparr>isUpdated := True\<rparr> else it"
  from Cons.prems(1)[unfolded f] show ?case
  proof (cases rule: Save_files_Cons_cases)
    case (exists s1 n)
    note g = Save_files_grows[OF exists(3)[symmetric]]
    note m = os_MkdirAll_le[OF exists(1)]
    show ?thesis
    proof (cases "(name, c) = (name0, c0)")
      case True
      with os_MkdirAll_stable[OF exists(1), of s'] os_Stat_mono[OF exists(2), of s'] g m
      show ?thesis by auto
    next
      case False
      with Cons.prems(2) f have "(name, c) \<in> set fs" by auto
      with Cons.IH[OF exists(3)[symmetric]] show ?thesis by simp
    qed
  next
    case (written s1 en s2)
    note g = Save_files_grows[OF written(5)[symmetric]]
    note m = os_MkdirAll_le[OF written(1)]
    note w = ioutil_WriteFile_new[OF written(2,3,4)]
    show ?thesis
    proof (cases "(name, c) = (name0, c0)")
      case True
      have "tree s1 \<subseteq>\<^sub>m tree s'" using w(1) g by (auto intro: map_le_trans)
      moreover have "denied s' = denied s" using g w(2) m(2) by simp
      ultimately have "os_MkdirAll s' (filepath_Dir ?file) = Inr s'"
        using os_MkdirAll_stable[OF written(1), of s'] by simp
      moreover have "os_Stat s' ?file = Inr (File c0)"
        using os_Stat_mono[OF w(4), of s'] g by simp
      ultimately show ?thesis using True by auto
    next
      case False
      with Cons.prems(2) f have "(name, c) \<in> set fs" by auto
      with Cons.IH[OF written(5)[symmetric]] show ?thesis by (auto split: if_splits)
    qed
  qed auto
qed

text \<open>Where every entry's directory and file are there, the loop does nothing.\<close>

lemma Save_files_idle:
  assumes "\<forall>(name, c) \<in> set fs.
             os_MkdirAll s (filepath_Dir (dir it @ ''/'' @ ID it @ ''/'' @ name)) = Inr s \<and>
             (\<exists>n. os_Stat s (dir it @ ''/'' @ ID it @ ''/'' @ name) = Inr n)"
  shows "Save_files it s fs = (None, it, s)"
  using assms by (induction fs) auto

lemma Save_files_all_exist:
  assumes "\<forall>(name, c) \<in> set fs. \<exists>n. lookup_path (tree s) (dir it @ ''/'' @ ID it @ ''/'' @ name) = Inr n"
    and "Save_files it s fs = (e, it', s')"
  shows "it' = it \<and> writes s' = writes s"
  using assms
proof (induction fs arbitrary: s)
  case Nil
  then show ?case by simp
next
  case (Cons f fs)
  obtain name c where f: "f = (name, c)" by (cases f)
  let ?file = "dir it @ ''/'' @ ID it @ ''/'' @ name"
  from Cons.prems(1) f obtain n0 where n0: "lookup_path (tree s) ?file = Inr n0" by auto
  have absurd: False if m: "os_MkdirAll s (filepath_Dir ?file) = Inr s1"
    and st: "os_Stat s1 ?file = Inl en" and ne: "os_IsNotExist en" for s1 en
  proof -
    from lookup_path_mono[OF os_MkdirAll_le(1)[OF m] n0] st ne show False
      by (auto simp: os_Stat_def os_IsNotExist_def split: if_splits)
  qed
  from Cons.prems(2)[unfolded f] show ?case
  proof (cases rule: Save_files_Cons_cases)
    case (mkdir_fail err)
    then show ?thesis by simp
  next
    case (exists s1 n)
    note m = os_MkdirAll_le[OF exists(1)]
    have "\<forall>(name, c) \<in> set fs. \<exists>n. lookup_path (tree s1) (dir it @ ''/'' @ ID it @ ''/'' @ name) = Inr n"
      using Cons.prems(1) lookup_path_mono[OF m(1)] by fastforce
    from Cons.IH[OF this exists(3)[symmetric]] m(3) show ?thesis by simp
  next
    case (stat_fail s1 err)
    with os_MkdirAll_le[OF stat_fail(1)] show ?thesis by simp
  next
    case (write_fail s1 en err)
    with absurd show ?thesis by blast
  next
    case (written s1 en s2)
    with absurd show ?thesis by blast
  qed
qed

section \<open>Properties of the loop of SaveAssignment\<close>

lemma SaveAssignment_files_Cons_cases [consumes 1, case_names mkdir_fail exists skipped write_fail written]:
  assumes r: "SaveAssignment_files root s ((name, c) # rest) = r"
  obtains
    (mkdir_fail) err where "os_MkdirAll s (filepath_Dir (root @ ''/'' @ name)) = Inl err"
      "r = (Some (Error_making_directory (filepath_Dir (root @ ''/'' @ name)) err), s)"
  | (exists) s1 n where "os_MkdirAll s (filepath_Dir (root @ ''/'' @ name)) = Inr s1"
      "os_Stat s1 (root @ ''/'' @ name) = Inr n" "r = SaveAssignment_files root s1 rest"
  | (skipped) s1 err where "os_MkdirAll s (filepath_Dir (root @ ''/'' @ name)) = Inr s1"
      "os_Stat s1 (root @ ''/'' @ name) = Inl err" "\<not> os_IsNotExist err"
      "r = SaveAssignment_files root s1 rest"
  | (write_fail) s1 en err where "os_MkdirAll s (filepath_Dir (root @ ''/'' @ name)) = Inr s1"
      "os_Stat s1 (root @ ''/'' @ name) = Inl en" "os_IsNotExist en"
      "ioutil_WriteFile s1 (root @ ''/'' @ name) c = Inl err" "r = (Some (Error_writing_file name err), s1)"
  | (written) s1 en s2 where "os_MkdirAll s (filepath_Dir (root @ ''/'' @ name)) = Inr s1"
      "os_Stat s1 (root @ ''/'' @ name) = Inl en" "os_IsNotExist en"
      "ioutil_WriteFile s1 (root @ ''/'' @ name) c = Inr s2" "r = SaveAssignment_files root s2 rest"
  using r by (auto simp: Let_def split: sum.splits if_splits)

lemma SaveAssignment_files_grows:
  assumes "SaveAssignment_files root s fs = (e, s')"
  shows "tree s \<subseteq>\<^sub>m tree s' \<and> denied s' = denied s"
  using assms
proof (induction fs arbitrary: s)
  case Nil
  then show ?case by simp
next
  case (Cons f fs)
  obtain name c where f: "f = (name, c)" by (cases f)
  from Cons.prems[unfolded f] show ?case
  proof (cases rule: SaveAssignment_files_Cons_cases)
    case (mkdir_fail err)
    then show ?thesis by simp
  next
    case (exists s1 n)
    from exists(3) Cons.IH[of s1] have "tree s1 \<subseteq>\<^sub>m tree s' \<and> denied s' = denied s1" by simp
    with os_MkdirAll_le[OF exists(1)] show ?thesis by (auto intro: map_le_trans)
  next
    case (skipped s1 err)
    from skipped(4) Cons.IH[of s1] have "tree s1 \<subseteq>\<^sub>m tree s' \<and> denied s' = denied s1" by simp
    with os_MkdirAll_le[OF skipped(1)] show ?thesis by (auto intro: map_le_trans)
  next
    case (write_fail s1 en err)
    with os_MkdirAll_le[OF write_fail(1)] show ?thesis by simp
  next
    case (written s1 en s2)
    from written(5) Cons.IH[of s2] have "tree s2 \<subseteq>\<^sub>m tree s' \<and> denied s' = denied s2" by simp
    with os_MkdirAll_le[OF written(1)] ioutil_WriteFile_new[OF written(2,3,4)]
    show ?thesis by (auto intro: map_le_trans)
  qed
qed

lemma SaveAssignment_files_writes:
  assumes "SaveAssignment_files root s fs = (e, s')"
  shows "\<exists>new. writes s' = new @ writes s \<and>
           (\<forall>p \<in> set new. \<forall>n. lookup_path (tree s) p \<noteq> Inr n)"
  using assms
proof (induction fs arbitrary: s)
  case Nil
  then show ?case by simp
next
  case (Cons f fs)
  obtain name c where f: "f = (name, c)" by (cases f)
  let ?file = "root @ ''/'' @ name"
  have step: "\<exists>new. writes s' = new @ writes s \<and> (\<forall>p \<in> set new. \<forall>n. lookup_path (tree s) p \<noteq> Inr n)"
    if m: "os_MkdirAll s (filepath_Dir ?file) = Inr s1"
      and r: "SaveAssignment_files root s1 fs = (e, s')" for s1
  proof -
    note m' = os_MkdirAll_le[OF m]
    from Cons.IH[OF r] obtain new where
      new: "writes s' = new @ writes s1" "\<forall>p \<in> set new. \<forall>n. lookup_path (tree s1) p \<noteq> Inr n"
      by auto
    have "\<forall>p \<in> set new. \<forall>n. lookup_path (tree s) p \<noteq> Inr n"
      using new(2) lookup_path_mono[OF m'(1)] by blast
    with new(1) m'(3) show ?thesis by auto
  qed
  from Cons.prems[unfolded f] show ?case
  proof (cases rule: SaveAssignment_files_Cons_cases)
    case (mkdir_fail err)
    then show ?thesis by simp
  next
    case (exists s1 n)
    from step[OF exists(1) exists(3)[symmetric]] show ?thesis .
  next
    case (skipped s1 err)
    from step[OF skipped(1) skipped(4)[symmetric]] show ?thesis .
  next
    case (write_fail s1 en err)
    with os_MkdirAll_le[OF write_fail(1)] show ?thesis by simp
  next
    case (written s1 en s2)
    note m = os_MkdirAll_le[OF written(1)]
    note w = ioutil_WriteFile_new[OF written(2,3,4)]
    from Cons.IH[OF written(5)[symmetric]] obtain new where
      new: "writes s' = new @ writes s2"
        "\<forall>p \<in> set new. \<forall>n. lookup_path (tree s2) p \<noteq> Inr n"
      by auto
    have le: "tree s \<subseteq>\<^sub>m tree s2" using m(1) w(1) by (rule map_le_trans)
    have old: "\<forall>p \<in> set new. \<forall>n. lookup_path (tree s) p \<noteq> Inr n"
      using new(2) lookup_path_mono[OF le] by blast
    from written(2,3) have "lookup_path (tree s1) ?file = Inl ENOENT"
      by (auto simp: os_Stat_def os_IsNotExist_def split: if_splits)
    then have "\<forall>n. lookup_path (tree s) ?file \<noteq> Inr n"
      using lookup_path_mono[OF m(1)] by force
    with old new(1) w(3) m(3) show ?thesis
      by (intro exI[of _ "new @ [?file]"]) auto
  qed
qed

lemma SaveAssignment_files_done:
  assumes "SaveAssignment_files root s fs = (None, s')" and "(name, c) \<in> set fs"
  shows "os_MkdirAll s' (filepath_Dir (root @ ''/'' @ name)) = Inr s' \<and>
         os_Stat s' (root @ ''/'' @ name) \<noteq> Inl ENOENT"
  using assms
proof (induction fs arbitrary: s)
  case Nil
  then show ?case by simp
next
  case (Cons f fs)
  obtain name0 c0 where f: "f = (name0, c0)" by (cases f)
  let ?file = "root @ ''/'' @ name0"
  have step: ?case
    if m: "os_MkdirAll s (filepath_Dir ?file) = Inr s1"
      and st: "os_Stat s2 ?file \<noteq> Inl ENOENT"
      and le: "tree s1 \<subseteq>\<^sub>m tree s2" and dn: "denied s2 = denied s1"
      and r: "SaveAssignment_files root s2 fs = (None, s')" for s1 s2
  proof (cases "(name, c) = (name0, c0)")
    case True
    note g = SaveAssignment_files_grows[OF r]
    note m' = os_MkdirAll_le[OF m]
    have "tree s1 \<subseteq>\<^sub>m tree s'" using le g by (auto intro: map_le_trans)
    moreover have "denied s' = denied s" using g dn m'(2) by simp
    ultimately have "os_MkdirAll s' (filepath_Dir ?file) = Inr s'"
      using os_MkdirAll_stable[OF m, of s'] by simp
    moreover have "os_Stat s' ?file \<noteq> Inl ENOENT"
      using os_Stat_settled[OF st, of s'] st g by simp
    ultimately show ?thesis using True by simp
  next
    case False
    with Cons.prems(2) f have "(name, c) \<in> set fs" by auto
    with Cons.IH[OF r] show ?thesis by simp
  qed
  from Cons.prems(1)[unfolded f] show ?case
  proof (cases rule: SaveAssignment_files_Cons_cases)
    case (exists s1 n)
    show ?thesis
    proof (rule step[OF exists(1) _ _ _ exists(3)[symmetric]])
      show "os_Stat s1 ?file \<noteq> Inl ENOENT" using exists(2) by simp
    qed simp_all
  next
    case (skipped s1 err)
    show ?thesis
    proof (rule step[OF skipped(1) _ _ _ skipped(4)[symmetric]])
      show "os_Stat s1 ?file \<noteq> Inl ENOENT"
        using skipped(2,3) by (auto simp: os_IsNotExist_def)
    qed simp_all
  next
    case (written s1 en s2)
    note w = ioutil_WriteFile_new[OF written(2,3,4)]
    show ?thesis
    proof (rule step[OF written(1) _ _ _ written(5)[symmetric]])
      show "os_Stat s2 ?file \<noteq> Inl ENOENT" using w(4) by simp
    qed (use w in simp_all)
  qed auto
qed

lemma SaveAssignment_files_idle:
  assumes "\<forall>(name, c) \<in> set fs.
             os_MkdirAll s (filepath_Dir (root @ ''/'' @ name)) = Inr s \<and>
             os_Stat s (root @ ''/'' @ name) \<noteq> Inl ENOENT"
  shows "SaveAssignment_files root s fs = (None, s)"
  using assms
  by (induction fs) (auto simp: os_IsNotExist_def Let_def split: sum.splits)

text \<open>An error of the loop is the failure of a \<^verbatim>\<open>MkdirAll\<close> or of a \<^verbatim>\<open>WriteFile\<close>, never of a stat.\<close>

lemma SaveAssignment_files_error_origin:
  assumes "SaveAssignment_files root s fs = (Some err, s')"
  shows "\<exists>name content e.
           (name, content) \<in> set fs \<and>
           (err = Error_making_directory (filepath_Dir (root @ ''/'' @ name)) e \<and>
              os_MkdirAll s' (filepath_Dir (root @ ''/'' @ name)) = Inl e \<or>
            err = Error_writing_file name e \<and>
              os_Stat s' (root @ ''/'' @ name) = Inl ENOENT \<and>
              ioutil_WriteFile s' (root @ ''/'' @ name) content = Inl e)"
  using assms
proof (induction fs arbitrary: s)
  case Nil
  then show ?case by simp
next
  case (Cons f fs)
  obtain name c where f: "f = (name, c)" by (cases f)
  from Cons.prems[unfolded f] show ?case
  proof (cases rule: SaveAssignment_files_Cons_cases)
    case (mkdir_fail e)
    then show ?thesis unfolding f by (intro exI[of _ name] exI[of _ c] exI[of _ e]) simp
  next
    case (exists s1 n)
    from Cons.IH[OF exists(3)[symmetric]] show ?thesis by (fastforce simp del: split_paired_Ex)
  next
    case (skipped s1 e)
    from Cons.IH[OF skipped(4)[symmetric]] show ?thesis by (fastforce simp del: split_paired_Ex)
  next
    case (write_fail s1 en e)
    then show ?thesis unfolding f
      by (intro exI[of _ name] exI[of _ c] exI[of _ e]) (simp add: os_IsNotExist_def)
  next
    case (written s1 en s2)
    from Cons.IH[OF written(5)[symmetric]] show ?thesis by (fastforce simp del: split_paired_Ex)
  qed
qed

section \<open>Save and SaveAssignment as a whole\<close>

lemma writes_since_append: "writes s' = new @ writes s \<Longrightarrow> writes_since s s' = new"
  by (simp add: writes_since_def)

lemma Save_grows:
  assumes "Save it s = (e, it', s')"
  shows "tree s \<subseteq>\<^sub>m tree s' \<and> denied s' = denied s"
  using assms Save_files_grows
  by (fastforce simp: Save_def split: sum.splits if_splits)

lemma Save_writes:
  assumes "Save it s = (e, it', s')"
  shows "\<exists>new. writes s' = new @ writes s \<and> (\<forall>p \<in> set new. \<forall>n. lookup_path (tree s) p \<noteq> Inr n)"
proof (cases "\<exists>it0. Save_files it0 s (Files it) = (e, it', s')")
  case True
  then obtain it0 where "Save_files it0 s (Files it) = (e, it', s')" ..
  from Save_files_writes[OF this] show ?thesis by (auto simp del: split_paired_All)
next
  case False
  with assms have "s' = s" by (auto simp: Save_def split: sum.splits if_splits)
  then show ?thesis by simp
qed

lemma SaveAssignment_grows:
  assumes "SaveAssignment d a s = (e, s', out)"
  shows "tree s \<subseteq>\<^sub>m tree s' \<and> denied s' = denied s"
  using assms SaveAssignment_files_grows
  by (fastforce simp: SaveAssignment_def Let_def split: prod.splits option.splits)

lemma SaveAssignment_writes:
  assumes "SaveAssignment d a s = (e, s', out)"
  shows "\<exists>new. writes s' = new @ writes s \<and> (\<forall>p \<in> set new. \<forall>n. lookup_path (tree s) p \<noteq> Inr n)"
proof -
  from assms obtain e0 where
    "SaveAssignment_files (d @ ''/'' @ Track a @ ''/'' @ Slug_a a) s (Files_a a) = (e0, s')"
    by (auto simp: SaveAssignment_def Let_def split: prod.splits option.splits)
  from SaveAssignment_files_writes[OF this] show ?thesis .
qed

lemma Save_result: "Save it s = (fst (Save it s), fst (snd (Save it s)), snd (snd (Save it s)))"
  by simp

lemma SaveAssignment_result:
  "SaveAssignment d a s =
     (fst (SaveAssignment d a s), fst (snd (SaveAssignment d a s)), snd (snd (SaveAssignment d a s)))"
  by simp

lemma Save_files_dir_there:
  assumes r: "Save_files it s fs = (None, it', s')" and ne: "fs \<noteq> []"
  shows "lookup_path (tree s') (dir it @ ''/'' @ ID it) = Inr Directory"
proof -
  from ne obtain name c where "(name, c) \<in> set fs" by (cases fs) auto
  from Save_files_done[OF r this] obtain n where
    "os_Stat s' (dir it @ ''/'' @ ID it @ ''/'' @ name) = Inr n" by blast
  then have "lookup_path (tree s') ((dir it @ ''/'' @ ID it) @ CHR ''/'' # name) = Inr n"
    by (auto simp: os_Stat_def split: if_splits)
  then show ?thesis by (rule lookup_path_parent)
qed

lemma Save_again:
  assumes r: "Save it s = (None, it1, s1)"
    and ne: "Files it \<noteq> [] \<or> (\<exists>n. os_Stat s (dir it @ ''/'' @ ID it) = Inr n)"
    and same: "dir it2 = dir it" "ID it2 = ID it" "set (Files it2) = set (Files it)"
  shows "Save it2 s1 = (None, it2, s1)"
proof (cases "Files it = []")
  case True
  with ne obtain n where st: "os_Stat s (dir it @ ''/'' @ ID it) = Inr n" by blast
  with r True have "s1 = s" by (simp add: Save_def Item_Path_def)
  moreover from same(3) True have "Files it2 = []" by simp
  ultimately show ?thesis using st same(1,2) by (simp add: Save_def Item_Path_def)
next
  case False
  from r have nd: "\<not> denied s SYS_stat (dir it @ ''/'' @ ID it)"
    by (auto simp: Save_def Item_Path_def os_Stat_def os_IsNotExist_def split: sum.splits if_splits)
  from r have "Save_files it s (Files it) = (None, it1, s1) \<or>
               Save_files (it\<lparr>isNew := True\<rparr>) s (Files it) = (None, it1, s1)"
    by (auto simp: Save_def split: sum.splits if_splits)
  then obtain it0 where it0: "dir it0 = dir it" "ID it0 = ID it"
    and r0: "Save_files it0 s (Files it) = (None, it1, s1)"
    by (elim disjE) (erule that[rotated 2]; simp)+
  from Save_files_grows[OF r0] have dn: "denied s1 = denied s" by simp
  from Save_files_dir_there[OF r0 False] it0
  have "lookup_path (tree s1) (dir it @ ''/'' @ ID it) = Inr Directory"
    by simp
  with nd dn same(1,2) have st: "os_Stat s1 (Item_Path it2) = Inr Directory"
    by (simp add: os_Stat_def Item_Path_def)
  have "Save_files it2 s1 (Files it2) = (None, it2, s1)"
  proof (rule Save_files_idle, clarify)
    fix name c assume "(name, c) \<in> set (Files it2)"
    with same(3) have "(name, c) \<in> set (Files it)" by simp
    from Save_files_done[OF r0 this] it0 same(1,2)
    show "os_MkdirAll s1 (filepath_Dir (dir it2 @ ''/'' @ ID it2 @ ''/'' @ name)) = Inr s1 \<and>
         (\<exists>n. os_Stat s1 (dir it2 @ ''/'' @ ID it2 @ ''/'' @ name) = Inr n)"
      by simp
  qed
  with st show ?thesis by (simp add: Save_def)
qed

lemma SaveAssignment_again:
  assumes r: "SaveAssignment d a s = (None, s1, out)"
    and fs2: "set fs2 = set (Files_a a)"
  shows "SaveAssignment d (a\<lparr>Files_a := fs2\<rparr>) s1 = (None, s1, out)"
proof -
  let ?root = "d @ ''/'' @ Track a @ ''/'' @ Slug_a a"
  from r have r0: "SaveAssignment_files ?root s (Files_a a) = (None, s1)"
    and out: "out = [(if IsFresh_a a then ''*'' else '' '') @ '' '' @ Track a @ '' - '' @ Slug_a a]"
    by (auto simp: SaveAssignment_def Let_def split: prod.splits option.splits)
  have "SaveAssignment_files ?root s1 fs2 = (None, s1)"
  proof (rule SaveAssignment_files_idle, clarify)
    fix name c assume "(name, c) \<in> set fs2"
    with fs2 have "(name, c) \<in> set (Files_a a)" by simp
    from SaveAssignment_files_done[OF r0 this]
    show "os_MkdirAll s1 (filepath_Dir (?root @ ''/'' @ name)) = Inr s1 \<and>
          os_Stat s1 (?root @ ''/'' @ name) \<noteq> Inl ENOENT" .
  qed
  with out show ?thesis by (simp add: SaveAssignment_def)
qed

section \<open>Properties of the test-file check and of the submit action\<close>

lemma last_index_from_ge:
  "take (length sep) (drop i s) = sep \<Longrightarrow> i \<le> j \<Longrightarrow> int i \<le> last_index_from s sep j"
proof (induction j)
  case 0
  then show ?case by simp
next
  case (Suc j)
  show ?case
  proof (cases "take (length sep) (drop (Suc j) s) = sep")
    case True
    with Suc.prems show ?thesis by simp
  next
    case False
    with Suc.prems have "i \<le> j" by (cases "i = Suc j") auto
    with Suc.IH Suc.prems(1) False show ?thesis by simp
  qed
qed

lemma strings_LastIndex_suffix: "int (length pre) \<le> strings_LastIndex (pre @ ext) ext"
  by (simp add: strings_LastIndex_def last_index_from_ge)

lemma IsTest_range_iff:
  "IsTest_range exts filename \<longleftrightarrow> (\<exists>(lang, ext) \<in> set exts. strings_LastIndex filename ext > 0)"
  by (induction exts) auto

lemma IsTest_suffix:
  assumes "(lang, ext) \<in> set testExtensions" and "pre \<noteq> []"
  shows "IsTest (pre @ ext)"
proof -
  from assms(2) have "0 < int (length pre)" by simp
  with strings_LastIndex_suffix[of pre ext] have "strings_LastIndex (pre @ ext) ext > 0" by linarith
  with assms(1) show ?thesis unfolding IsTest_def IsTest_range_iff by blast
qed

lemma not_IsTest_bare: "list_all (\<lambda>(lang, ext). \<not> IsTest ext) testExtensions"
  by code_simp

lemma IsTest_bare:
  assumes "(lang, ext) \<in> set testExtensions"
  shows "\<not> IsTest ext"
  using not_IsTest_bare assms by (auto simp: list_all_iff)

lemma strings_HasPrefix_append: "strings_HasPrefix (pre @ rest) pre"
  by (simp add: strings_HasPrefix_def)

lemma submit_filename_under:
  assumes "absolutePath e filename = Inr (Dir c @ [Separator e] @ rel)"
  shows "submit_filename e c filename =
           (if IsTest rel then Inl ''It looks like this is a test, please submit a solution.''
            else Inr (Dir c @ [Separator e] @ rel, rel))"
  using assms strings_HasPrefix_append[of "Dir c @ [Separator e]" rel]
  by (simp add: submit_filename_def Let_def)

lemma not_IsTest_abc: "\<not> IsTest ''a/b/c.py''"
  by code_simp

lemma singleton_hd: "length xs = 1 \<Longrightarrow> xs = [hd xs]"
  by (cases xs) auto

lemma FetchAssignments_sets_no_header:
  "list_all (\<lambda>req. Header req = Map.empty) (fst (FetchAssignments e c path))"
  by (auto simp: FetchAssignments_def http_NewRequest_def Let_def split: sum.splits option.splits)

section \<open>The claims\<close>

text \<open>
  C1 (no overwrite). A regular file that is at a path \<open>p\<close> with content \<open>C\<close> before
  \<^verbatim>\<open>Item.Save\<close> or \<^verbatim>\<open>SaveAssignment\<close> runs is at \<open>p\<close> with content \<open>C\<close> after it,
  whatever the run returns and whatever the mapping holds for that path; and \<open>p\<close> is
  not among the paths the run has written. This holds for every path, so for the
  target path of every entry of the mapping.
\<close>

theorem existing_file_is_kept:
  assumes "lookup_path (tree s) p = Inr (File C)"
    and "Save it s = (e, it', s')"
    and "SaveAssignment d a s = (e2, s2, out)"
  shows "lookup_path (tree s') p = Inr (File C) \<and> p \<notin> set (writes_since s s') \<and>
         lookup_path (tree s2) p = Inr (File C) \<and> p \<notin> set (writes_since s s2)"
proof -
  from Save_grows[OF assms(2)] assms(1) have "lookup_path (tree s') p = Inr (File C)"
    by (auto dest: lookup_path_mono)
  moreover from SaveAssignment_grows[OF assms(3)] assms(1)
  have "lookup_path (tree s2) p = Inr (File C)"
    by (auto dest: lookup_path_mono)
  moreover from Save_writes[OF assms(2)] assms(1) have "p \<notin> set (writes_since s s')"
    by (auto simp: writes_since_append)
  moreover from SaveAssignment_writes[OF assms(3)] assms(1) have "p \<notin> set (writes_since s s2)"
    by (auto simp: writes_since_append)
  ultimately show ?thesis by simp
qed

text \<open>
  The user's \<^verbatim>\<open>bob.rb\<close> holds \<open>mine\<close>, the assignment brings \<open>theirs\<close> for it and a
  test file that is not there yet: the test file is written, \<^verbatim>\<open>bob.rb\<close> still holds
  \<open>mine\<close>.
\<close>

theorem existing_file_is_kept_witness:
  "lookup_path (tree fs_bob) ''/ex/ruby/bob/bob.rb'' = Inr (File ''mine'') \<and>
   lookup_path (tree (snd (snd (Save item_bob fs_bob)))) ''/ex/ruby/bob/bob.rb'' = Inr (File ''mine'') \<and>
   lookup_path (tree (fst (snd (SaveAssignment ''/ex'' assignment_bob fs_bob)))) ''/ex/ruby/bob/bob.rb''
     = Inr (File ''mine'') \<and>
   writes_since fs_bob (snd (snd (Save item_bob fs_bob))) = [''/ex/ruby/bob/bob_test.rb''] \<and>
   writes_since fs_bob (fst (snd (SaveAssignment ''/ex'' assignment_bob fs_bob)))
     = [''/ex/ruby/bob/bob_test.rb'']"
proof -
  have h: "lookup_path (tree fs_bob) ''/ex/ruby/bob/bob.rb'' = Inr (File ''mine'')"
    by (simp add: fs_bob_def lookup_path_def)
  have w1: "writes_since fs_bob (snd (snd (Save item_bob fs_bob))) = [''/ex/ruby/bob/bob_test.rb'']"
    by code_simp
  have w2: "writes_since fs_bob (fst (snd (SaveAssignment ''/ex'' assignment_bob fs_bob)))
              = [''/ex/ruby/bob/bob_test.rb'']"
    by code_simp
  from existing_file_is_kept[OF h Save_result SaveAssignment_result] h w1 w2
  show ?thesis by blast
qed

text \<open>
  C2 (classification), as amended. \<^verbatim>\<open>Save\<close> sets its flags from its stat of
  \<^verbatim>\<open>{dir}/{id}\<close> before the loop and from the writes of the loop, and it never
  clears one. When that stat says not-exist, the item comes back with \<open>isNew\<close> set
  and nothing else changed. When the stat succeeds (something stands at
  \<^verbatim>\<open>{dir}/{id}\<close>) and the run has written at least one file (by C1 a file that was
  not there before), the item comes back with \<open>isUpdated\<close> set, unless \<open>isNew\<close> was
  set on entry. When the stat succeeds and every file of the mapping was already
  on disk, the item comes back as it was. When the stat fails with any other
  error, \<^verbatim>\<open>Save\<close> returns that error and changes neither the item nor the file
  system. So, for an item that enters with both flags unset, the results are New
  (\<open>isNew\<close> alone), Updated (\<open>isUpdated\<close> alone) and Unchanged (neither), in this
  order; the first three hold whether or not the run ends in an error.
\<close>

theorem Save_classifies:
  assumes "Save it s = (e, it', s')"
  shows "(os_Stat s (dir it @ ''/'' @ ID it) = Inl ENOENT \<longrightarrow> it' = it\<lparr>isNew := True\<rparr>) \<and>
         ((\<exists>n. os_Stat s (dir it @ ''/'' @ ID it) = Inr n) \<and> writes_since s s' \<noteq> [] \<longrightarrow>
            it' = (if isNew it then it else it\<lparr>isUpdated := True\<rparr>)) \<and>
         ((\<exists>n. os_Stat s (dir it @ ''/'' @ ID it) = Inr n) \<and>
          (\<forall>(name, content) \<in> set (Files it).
             \<exists>n. lookup_path (tree s) (dir it @ ''/'' @ ID it @ ''/'' @ name) = Inr n) \<longrightarrow>
            it' = it) \<and>
         (\<forall>err. os_Stat s (dir it @ ''/'' @ ID it) = Inl err \<and> err \<noteq> ENOENT \<longrightarrow>
            e = Some err \<and> it' = it \<and> s' = s)"
proof (intro conjI impI allI)
  assume st: "os_Stat s (dir it @ ''/'' @ ID it) = Inl ENOENT"
  with assms have "Save_files (it\<lparr>isNew := True\<rparr>) s (Files it) = (e, it', s')"
    by (simp add: Save_def Item_Path_def os_IsNotExist_def)
  from Save_files_flags[OF this] show "it' = it\<lparr>isNew := True\<rparr>" by simp
next
  assume "(\<exists>n. os_Stat s (dir it @ ''/'' @ ID it) = Inr n) \<and> writes_since s s' \<noteq> []"
  then obtain n where st: "os_Stat s (dir it @ ''/'' @ ID it) = Inr n"
    and w: "writes_since s s' \<noteq> []"
    by blast
  from st assms have r: "Save_files it s (Files it) = (e, it', s')"
    by (simp add: Save_def Item_Path_def)
  from Save_files_writes[OF r] obtain new where
    new: "writes s' = new @ writes s"
      "new \<noteq> [] \<longrightarrow> it' = (if \<not> isNew it then it\<lparr>isUpdated := True\<rparr> else it)"
    by blast
  from new(1) w have "new \<noteq> []" by (simp add: writes_since_append)
  with new(2) show "it' = (if isNew it then it else it\<lparr>isUpdated := True\<rparr>)" by simp
next
  assume a: "(\<exists>n. os_Stat s (dir it @ ''/'' @ ID it) = Inr n) \<and>
          (\<forall>(name, content) \<in> set (Files it).
             \<exists>n. lookup_path (tree s) (dir it @ ''/'' @ ID it @ ''/'' @ name) = Inr n)"
  then obtain n where st: "os_Stat s (dir it @ ''/'' @ ID it) = Inr n" by blast
  from st assms have r: "Save_files it s (Files it) = (e, it', s')"
    by (simp add: Save_def Item_Path_def)
  from a have "\<forall>(name, c) \<in> set (Files it).
      \<exists>n. lookup_path (tree s) (dir it @ ''/'' @ ID it @ ''/'' @ name) = Inr n" by blast
  from Save_files_all_exist[OF this r] show "it' = it" by simp
next
  fix err
  assume "os_Stat s (dir it @ ''/'' @ ID it) = Inl err \<and> err \<noteq> ENOENT"
  with assms show "e = Some err" and "it' = it" and "s' = s"
    by (simp_all add: Save_def Item_Path_def os_IsNotExist_def)
qed

text \<open>
  The same item, both flags unset, saved under an exercise root that has no
  directory for it (New), into a directory that has one of its two files
  (Updated), into a directory that has both (Unchanged), and where \<^verbatim>\<open>/ex\<close> is a
  regular file (the error, nothing changed).
\<close>

theorem Save_classifies_witness:
  "(os_Stat fs_ex ''/ex/ruby/bob'' = Inl ENOENT \<and>
      isNew (fst (snd (Save item_bob fs_ex))) \<and>
      \<not> isUpdated (fst (snd (Save item_bob fs_ex)))) \<and>
   (os_Stat fs_bob ''/ex/ruby/bob'' = Inr Directory \<and>
      writes_since fs_bob (snd (snd (Save item_bob fs_bob))) = [''/ex/ruby/bob/bob_test.rb''] \<and>
      \<not> isNew (fst (snd (Save item_bob fs_bob))) \<and>
      isUpdated (fst (snd (Save item_bob fs_bob)))) \<and>
   (os_Stat fs_bob_full ''/ex/ruby/bob'' = Inr Directory \<and>
      lookup_path (tree fs_bob_full) ''/ex/ruby/bob/bob.rb'' = Inr (File ''mine'') \<and>
      lookup_path (tree fs_bob_full) ''/ex/ruby/bob/bob_test.rb'' = Inr (File ''my test'') \<and>
      \<not> isNew (fst (snd (Save item_bob fs_bob_full))) \<and>
      \<not> isUpdated (fst (snd (Save item_bob fs_bob_full)))) \<and>
   (os_Stat fs_exfile ''/ex/ruby/bob'' = Inl ENOTDIR \<and>
      fst (Save item_bob fs_exfile) = Some ENOTDIR \<and>
      fst (snd (Save item_bob fs_exfile)) = item_bob \<and>
      snd (snd (Save item_bob fs_exfile)) = fs_exfile)"
proof -
  have p: "dir item_bob @ ''/'' @ ID item_bob = ''/ex/ruby/bob''"
    by (simp add: item_bob_def)
  have fresh: "\<not> isNew item_bob" "\<not> isUpdated item_bob"
    by (simp_all add: item_bob_def)
  have st1: "os_Stat fs_ex ''/ex/ruby/bob'' = Inl ENOENT"
    by code_simp
  have st2: "os_Stat fs_bob ''/ex/ruby/bob'' = Inr Directory"
    by code_simp
  have st3: "os_Stat fs_bob_full ''/ex/ruby/bob'' = Inr Directory"
    by code_simp
  have st4: "os_Stat fs_exfile ''/ex/ruby/bob'' = Inl ENOTDIR"
    by code_simp
  have w2: "writes_since fs_bob (snd (snd (Save item_bob fs_bob))) = [''/ex/ruby/bob/bob_test.rb'']"
    by code_simp
  have l1: "lookup_path (tree fs_bob_full) ''/ex/ruby/bob/bob.rb'' = Inr (File ''mine'')"
    by code_simp
  have l2: "lookup_path (tree fs_bob_full) ''/ex/ruby/bob/bob_test.rb'' = Inr (File ''my test'')"
    by code_simp
  note T = Save_classifies[OF Save_result, where it=item_bob, unfolded p]
  have c1: "fst (snd (Save item_bob fs_ex)) = item_bob\<lparr>isNew := True\<rparr>"
    by (rule T[where s=fs_ex, THEN conjunct1, rule_format, OF st1])
  have p2: "(\<exists>n. os_Stat fs_bob ''/ex/ruby/bob'' = Inr n) \<and>
            writes_since fs_bob (snd (snd (Save item_bob fs_bob))) \<noteq> []"
    by (simp add: st2 w2)
  have c2: "fst (snd (Save item_bob fs_bob)) = (if isNew item_bob then item_bob else item_bob\<lparr>isUpdated := True\<rparr>)"
    by (rule T[where s=fs_bob, THEN conjunct2, THEN conjunct1, rule_format, OF p2])
  have p3: "(\<exists>n. os_Stat fs_bob_full ''/ex/ruby/bob'' = Inr n) \<and>
            (\<forall>(name, content) \<in> set (Files item_bob).
               \<exists>n. lookup_path (tree fs_bob_full) (dir item_bob @ ''/'' @ ID item_bob @ ''/'' @ name) = Inr n)"
    using l1 l2 by (simp add: st3 item_bob_def)
  have c3: "fst (snd (Save item_bob fs_bob_full)) = item_bob"
    by (rule T[where s=fs_bob_full, THEN conjunct2, THEN conjunct2, THEN conjunct1, rule_format, OF p3])
  have p4: "os_Stat fs_exfile ''/ex/ruby/bob'' = Inl ENOTDIR \<and> ENOTDIR \<noteq> ENOENT"
    by (simp add: st4)
  note c4 = T[where s=fs_exfile, THEN conjunct2, THEN conjunct2, THEN conjunct2, rule_format, OF p4]
  have f1: "isNew (fst (snd (Save item_bob fs_ex)))" "\<not> isUpdated (fst (snd (Save item_bob fs_ex)))"
    using fresh by (simp_all add: c1)
  have f2: "\<not> isNew (fst (snd (Save item_bob fs_bob)))" "isUpdated (fst (snd (Save item_bob fs_bob)))"
    using fresh by (simp_all add: c2)
  have f3: "\<not> isNew (fst (snd (Save item_bob fs_bob_full)))"
    "\<not> isUpdated (fst (snd (Save item_bob fs_bob_full)))"
    using fresh by (simp_all add: c3)
  show ?thesis
    by (intro conjI st1 st2 st3 st4 w2 l1 l2 f1 f2 f3 c4[THEN conjunct1]
        c4[THEN conjunct2, THEN conjunct1] c4[THEN conjunct2, THEN conjunct2])
qed

text \<open>
  The claim as it stands fails in three ways. Where a regular file stands at
  \<^verbatim>\<open>{dir}/{id}\<close> there is no directory, yet the stat succeeds, \<open>isNew\<close> stays unset and
  the run fails in \<^verbatim>\<open>MkdirAll\<close>. Where \<^verbatim>\<open>/ex\<close> is a regular file there is no directory
  \<^verbatim>\<open>{dir}/{id}\<close> either, the stat fails with \<open>ENOTDIR\<close>, and \<^verbatim>\<open>Save\<close> returns it with
  \<open>isNew\<close> unset. And on an item that enters with \<open>isNew\<close> set, a directory that has
  every file of the mapping leaves \<open>isNew\<close> set: New, not Unchanged.
\<close>

theorem Save_classifies_counterexample:
  "(lookup_path (tree fs_bob_is_file) ''/ex/ruby/bob'' = Inr (File ''not a directory'') \<and>
      fst (Save item_bob fs_bob_is_file) = Some ENOTDIR \<and>
      \<not> isNew (fst (snd (Save item_bob fs_bob_is_file)))) \<and>
   (lookup_path (tree fs_exfile) ''/ex/ruby/bob'' = Inl ENOTDIR \<and>
      fst (Save item_bob fs_exfile) = Some ENOTDIR \<and>
      \<not> isNew (fst (snd (Save item_bob fs_exfile)))) \<and>
   (lookup_path (tree fs_bob_full) ''/ex/ruby/bob'' = Inr Directory \<and>
      lookup_path (tree fs_bob_full) ''/ex/ruby/bob/bob.rb'' = Inr (File ''mine'') \<and>
      lookup_path (tree fs_bob_full) ''/ex/ruby/bob/bob_test.rb'' = Inr (File ''my test'') \<and>
      fst (Save (item_bob\<lparr>isNew := True\<rparr>) fs_bob_full) = None \<and>
      isNew (fst (snd (Save (item_bob\<lparr>isNew := True\<rparr>) fs_bob_full))))"
  by code_simp

text \<open>
  C3 (idempotent save), as amended. For \<^verbatim>\<open>Item.Save\<close>: let a first save return
  without error, of an assignment whose file mapping is not empty or for which the
  stat of \<^verbatim>\<open>{dir}/{id}\<close> succeeded. Then a second save of the same assignment (the
  same \<open>dir\<close>, \<open>ID\<close> and entries, visited in whatever order) returns without error,
  leaves the file system exactly as it found it (no file written, no directory
  made) and returns its item as it got it: it sets no flag, so on an item that
  enters with both flags unset it classifies Unchanged. For \<^verbatim>\<open>SaveAssignment\<close>,
  on its own: after any first call that returned without error, the second call
  returns without error, prints the same line and leaves the file system as it
  found it.
\<close>

theorem second_save_is_idle:
  "(Save it s = (None, it1, s1) \<and>
    (Files it \<noteq> [] \<or> (\<exists>n. os_Stat s (dir it @ ''/'' @ ID it) = Inr n)) \<and>
    dir it2 = dir it \<and> ID it2 = ID it \<and> set (Files it2) = set (Files it) \<longrightarrow>
      Save it2 s1 = (None, it2, s1) \<and>
      writes_since s1 (snd (snd (Save it2 s1))) = [] \<and>
      (\<not> isNew it2 \<and> \<not> isUpdated it2 \<longrightarrow>
         \<not> isNew (fst (snd (Save it2 s1))) \<and> \<not> isUpdated (fst (snd (Save it2 s1))))) \<and>
   (SaveAssignment d a sa = (None, sa1, out) \<and> set fs2 = set (Files_a a) \<longrightarrow>
      SaveAssignment d (a\<lparr>Files_a := fs2\<rparr>) sa1 = (None, sa1, out) \<and>
      writes_since sa1 (fst (snd (SaveAssignment d (a\<lparr>Files_a := fs2\<rparr>) sa1))) = [])"
proof (intro conjI impI)
  assume a: "Save it s = (None, it1, s1) \<and>
    (Files it \<noteq> [] \<or> (\<exists>n. os_Stat s (dir it @ ''/'' @ ID it) = Inr n)) \<and>
    dir it2 = dir it \<and> ID it2 = ID it \<and> set (Files it2) = set (Files it)"
  then have r: "Save it2 s1 = (None, it2, s1)"
    by (intro Save_again[of it s it1 s1 it2]) simp_all
  then show "Save it2 s1 = (None, it2, s1)" .
  from r show "writes_since s1 (snd (snd (Save it2 s1))) = []"
    by (simp add: writes_since_def)
  assume "\<not> isNew it2 \<and> \<not> isUpdated it2"
  with r show "\<not> isNew (fst (snd (Save it2 s1)))" and "\<not> isUpdated (fst (snd (Save it2 s1)))"
    by simp_all
next
  assume "SaveAssignment d a sa = (None, sa1, out) \<and> set fs2 = set (Files_a a)"
  then have r: "SaveAssignment d (a\<lparr>Files_a := fs2\<rparr>) sa1 = (None, sa1, out)"
    by (intro SaveAssignment_again[of d a sa sa1 out fs2]) simp_all
  then show "SaveAssignment d (a\<lparr>Files_a := fs2\<rparr>) sa1 = (None, sa1, out)" .
  from r show "writes_since sa1 (fst (snd (SaveAssignment d (a\<lparr>Files_a := fs2\<rparr>) sa1))) = []"
    by (simp add: writes_since_def)
qed

text \<open>
  Both saves of the two-file assignment into the directory that has \<^verbatim>\<open>bob.rb\<close>
  return without error; the second ones visit the mapping in the other order.
  Where every stat is refused \<^verbatim>\<open>Save\<close> fails, while \<^verbatim>\<open>SaveAssignment\<close> returns
  without error, the first time and the second.
\<close>

theorem second_save_is_idle_witness:
  "fst (Save item_bob fs_bob) = None \<and>
   Save (item_bob\<lparr>Files := [(''bob_test.rb'', ''test''), (''bob.rb'', ''theirs'')]\<rparr>)
        (snd (snd (Save item_bob fs_bob)))
     = (None, item_bob\<lparr>Files := [(''bob_test.rb'', ''test''), (''bob.rb'', ''theirs'')]\<rparr>,
        snd (snd (Save item_bob fs_bob))) \<and>
   \<not> isNew (fst (snd (Save (item_bob\<lparr>Files := [(''bob_test.rb'', ''test''), (''bob.rb'', ''theirs'')]\<rparr>)
        (snd (snd (Save item_bob fs_bob)))))) \<and>
   \<not> isUpdated (fst (snd (Save (item_bob\<lparr>Files := [(''bob_test.rb'', ''test''), (''bob.rb'', ''theirs'')]\<rparr>)
        (snd (snd (Save item_bob fs_bob)))))) \<and>
   fst (Save item_bob fs_blind) = Some EACCES \<and>
   fst (SaveAssignment ''/ex'' assignment_bob fs_blind) = None \<and>
   SaveAssignment ''/ex''
        (assignment_bob\<lparr>Files_a := [(''bob_test.rb'', ''test''), (''bob.rb'', ''theirs'')]\<rparr>)
        (fst (snd (SaveAssignment ''/ex'' assignment_bob fs_blind)))
     = (None, fst (snd (SaveAssignment ''/ex'' assignment_bob fs_blind)), [''  ruby - bob'']) \<and>
   fst (SaveAssignment ''/ex'' assignment_bob fs_bob) = None \<and>
   SaveAssignment ''/ex''
        (assignment_bob\<lparr>Files_a := [(''bob_test.rb'', ''test''), (''bob.rb'', ''theirs'')]\<rparr>)
        (fst (snd (SaveAssignment ''/ex'' assignment_bob fs_bob)))
     = (None, fst (snd (SaveAssignment ''/ex'' assignment_bob fs_bob)), [''  ruby - bob''])"
proof -
  let ?it2 = "item_bob\<lparr>Files := [(''bob_test.rb'', ''test''), (''bob.rb'', ''theirs'')]\<rparr>"
  let ?a2 = "assignment_bob\<lparr>Files_a := [(''bob_test.rb'', ''test''), (''bob.rb'', ''theirs'')]\<rparr>"
  have e1: "fst (Save item_bob fs_bob) = None"
    by code_simp
  have r1: "Save item_bob fs_bob = (None, fst (snd (Save item_bob fs_bob)), snd (snd (Save item_bob fs_bob)))"
    using e1 by (simp add: prod_eq_iff)
  have h1: "Save item_bob fs_bob = (None, fst (snd (Save item_bob fs_bob)), snd (snd (Save item_bob fs_bob))) \<and>
      (Files item_bob \<noteq> [] \<or> (\<exists>n. os_Stat fs_bob (dir item_bob @ ''/'' @ ID item_bob) = Inr n)) \<and>
      dir ?it2 = dir item_bob \<and> ID ?it2 = ID item_bob \<and> set (Files ?it2) = set (Files item_bob)"
    using r1 by (auto simp: item_bob_def)
  have fresh: "\<not> isNew ?it2 \<and> \<not> isUpdated ?it2"
    by (simp add: item_bob_def)
  have eb: "fst (Save item_bob fs_blind) = Some EACCES"
    by code_simp
  have e2: "fst (SaveAssignment ''/ex'' assignment_bob fs_blind) = None"
    by code_simp
  have out2: "snd (snd (SaveAssignment ''/ex'' assignment_bob fs_blind)) = [''  ruby - bob'']"
    by code_simp
  have h2: "SaveAssignment ''/ex'' assignment_bob fs_blind
              = (None, fst (snd (SaveAssignment ''/ex'' assignment_bob fs_blind)), [''  ruby - bob'']) \<and>
            set [(''bob_test.rb'', ''test''), (''bob.rb'', ''theirs'')] = set (Files_a assignment_bob)"
    using e2 out2 by (auto simp: prod_eq_iff assignment_bob_def)
  have e3: "fst (SaveAssignment ''/ex'' assignment_bob fs_bob) = None"
    by code_simp
  have out3: "snd (snd (SaveAssignment ''/ex'' assignment_bob fs_bob)) = [''  ruby - bob'']"
    by code_simp
  have h3: "SaveAssignment ''/ex'' assignment_bob fs_bob
              = (None, fst (snd (SaveAssignment ''/ex'' assignment_bob fs_bob)), [''  ruby - bob'']) \<and>
            set [(''bob_test.rb'', ''test''), (''bob.rb'', ''theirs'')] = set (Files_a assignment_bob)"
    using e3 out3 by (auto simp: prod_eq_iff assignment_bob_def)
  note A = second_save_is_idle[THEN conjunct1, rule_format, OF h1]
  note A3 = A[THEN conjunct2, THEN conjunct2, rule_format, OF fresh]
  note B = second_save_is_idle[THEN conjunct2, rule_format, OF h2]
  note C = second_save_is_idle[THEN conjunct2, rule_format, OF h3]
  show ?thesis
    by (intro conjI e1 eb e2 e3 A[THEN conjunct1] A3[THEN conjunct1] A3[THEN conjunct2]
        B[THEN conjunct1] C[THEN conjunct1])
qed

text \<open>
  The claim as it stands fails in three ways. With an empty mapping nothing creates
  \<^verbatim>\<open>{dir}/{id}\<close>, so the second \<^verbatim>\<open>Save\<close> finds it missing again and classifies New.
  When the first \<^verbatim>\<open>Save\<close> ends in an error (here every open for writing is
  refused), the second meets the same missing file, sets \<open>isUpdated\<close> and fails the
  same way: Updated, not Unchanged. And when the second \<^verbatim>\<open>Save\<close> runs on the item
  the first one returned, \<open>isNew\<close> is still set: New, not Unchanged.
\<close>

theorem second_save_counterexample:
  "(fst (Save item_none fs_empty) = None \<and>
    isNew (fst (snd (Save item_none (snd (snd (Save item_none fs_empty))))))) \<and>
   (fst (Save item_bob fs_readonly) = Some EACCES \<and>
    isUpdated (fst (snd (Save item_bob (snd (snd (Save item_bob fs_readonly))))))) \<and>
   (fst (Save item_bob fs_ex) = None \<and>
    fst (Save (fst (snd (Save item_bob fs_ex))) (snd (snd (Save item_bob fs_ex)))) = None \<and>
    isNew (fst (snd (Save (fst (snd (Save item_bob fs_ex))) (snd (snd (Save item_bob fs_ex)))))))"
  by code_simp

text \<open>
  C9 (a stat error skips the file). In the loop of \<^verbatim>\<open>SaveAssignment\<close>, at an entry
  whose directory could be made and whose stat fails with an error other than
  not-exist, nothing is written and no error is raised: the loop goes on with the
  remaining entries exactly as if the entry were not in the mapping. When it is
  the only entry, \<^verbatim>\<open>SaveAssignment\<close> returns \<^verbatim>\<open>nil\<close> and prints nothing but its
  summary line.
\<close>

theorem stat_error_skips_the_file:
  assumes "os_MkdirAll s (filepath_Dir (root @ ''/'' @ name)) = Inr s1"
    and "os_Stat s1 (root @ ''/'' @ name) = Inl err"
    and "\<not> os_IsNotExist err"
    and "root = d @ ''/'' @ Track a @ ''/'' @ Slug_a a"
  shows "SaveAssignment_files root s ((name, content) # rest) = SaveAssignment_files root s1 rest \<and>
         writes s1 = writes s \<and>
         (Files_a a = [(name, content)] \<longrightarrow>
            SaveAssignment d a s =
              (None, s1, [(if IsFresh_a a then ''*'' else '' '') @ '' '' @ Track a @ '' - '' @ Slug_a a]))"
  using assms os_MkdirAll_le(3)[OF assms(1)]
  by (simp add: SaveAssignment_def Let_def)

text \<open>
  The stat of the test file's path is refused (a permission error): the file is
  not written, and \<^verbatim>\<open>SaveAssignment\<close> returns \<^verbatim>\<open>nil\<close>.
\<close>

theorem stat_error_skips_the_file_witness:
  "os_MkdirAll fs_nostat (filepath_Dir (''/ex/ruby/bob'' @ ''/'' @ ''bob_test.rb'')) = Inr fs_nostat \<and>
   os_Stat fs_nostat (''/ex/ruby/bob'' @ ''/'' @ ''bob_test.rb'') = Inl EACCES \<and>
   \<not> os_IsNotExist EACCES \<and>
   SaveAssignment ''/ex'' assignment_test fs_nostat = (None, fs_nostat, [''  ruby - bob'']) \<and>
   writes fs_nostat = []"
proof -
  have d: "filepath_Dir (''/ex/ruby/bob'' @ ''/'' @ ''bob_test.rb'') = ''/ex/ruby/bob''"
    by code_simp
  have m: "os_MkdirAll fs_nostat (filepath_Dir (''/ex/ruby/bob'' @ ''/'' @ ''bob_test.rb'')) = Inr fs_nostat"
    unfolding d by (simp add: os_MkdirAll_def fs_nostat_def fs_bob_def)
  have st: "os_Stat fs_nostat (''/ex/ruby/bob'' @ ''/'' @ ''bob_test.rb'') = Inl EACCES"
    by code_simp
  have ne: "\<not> os_IsNotExist EACCES"
    by (simp add: os_IsNotExist_def)
  have root: "''/ex/ruby/bob'' = ''/ex'' @ ''/'' @ Track assignment_test @ ''/'' @ Slug_a assignment_test"
    by (simp add: assignment_test_def assignment_bob_def)
  have fl: "Files_a assignment_test = [(''bob_test.rb'', ''test'')]"
    by (simp add: assignment_test_def)
  have w: "writes fs_nostat = []"
    by (simp add: fs_nostat_def fs_bob_def)
  have line: "[(if IsFresh_a assignment_test then ''*'' else '' '') @ '' '' @ Track assignment_test
              @ '' - '' @ Slug_a assignment_test] = [''  ruby - bob'']"
    by (simp add: assignment_test_def assignment_bob_def)
  note T = stat_error_skips_the_file[OF m st ne root, of "''test''" "[]"]
  from T[THEN conjunct2, THEN conjunct2, rule_format, OF fl]
  have "SaveAssignment ''/ex'' assignment_test fs_nostat = (None, fs_nostat, [''  ruby - bob''])"
    unfolding line .
  with m st ne w show ?thesis by (intro conjI)
qed

text \<open>
  C10 (empty mapping), as amended. For an empty file mapping both functions leave
  the file system exactly as it is: no file written, no directory made, not even
  the assignment's own. \<^verbatim>\<open>SaveAssignment\<close> returns \<^verbatim>\<open>nil\<close> and prints its summary
  line. \<^verbatim>\<open>Item.Save\<close> returns \<^verbatim>\<open>nil\<close> unless its stat of \<^verbatim>\<open>{dir}/{id}\<close> fails with an
  error other than not-exist, which it returns.
\<close>

theorem empty_mapping_touches_nothing:
  assumes "Files it = []" and "Files_a a = []"
  shows "snd (snd (Save it s)) = s \<and>
         fst (Save it s) =
           (case os_Stat s (Item_Path it) of
              Inl err \<Rightarrow> if os_IsNotExist err then None else Some err
            | Inr n \<Rightarrow> None) \<and>
         SaveAssignment d a s =
           (None, s, [(if IsFresh_a a then ''*'' else '' '') @ '' '' @ Track a @ '' - '' @ Slug_a a])"
  using assms by (simp add: Save_def SaveAssignment_def split: sum.splits)

text \<open>An empty mapping saved into the empty root.\<close>

theorem empty_mapping_touches_nothing_witness:
  "Files item_none = [] \<and> Files_a assignment_none = [] \<and>
   snd (snd (Save item_none fs_empty)) = fs_empty \<and>
   fst (Save item_none fs_empty) = None \<and>
   SaveAssignment ''/ex'' assignment_none fs_empty = (None, fs_empty, [''  ruby - bob''])"
proof -
  have f1: "Files item_none = []" by (simp add: item_none_def)
  have f2: "Files_a assignment_none = []" by (simp add: assignment_none_def)
  have st: "os_Stat fs_empty (Item_Path item_none) = Inl ENOENT" by code_simp
  have line: "[(if IsFresh_a assignment_none then ''*'' else '' '') @ '' '' @ Track assignment_none
              @ '' - '' @ Slug_a assignment_none] = [''  ruby - bob'']"
    by (simp add: assignment_none_def assignment_bob_def)
  note T = empty_mapping_touches_nothing[OF f1 f2, of fs_empty "''/ex''"]
  from T[THEN conjunct2, THEN conjunct1] have e: "fst (Save item_none fs_empty) = None"
    by (simp add: st os_IsNotExist_def)
  from T[THEN conjunct2, THEN conjunct2]
  have sa: "SaveAssignment ''/ex'' assignment_none fs_empty = (None, fs_empty, [''  ruby - bob''])"
    unfolding line .
  from f1 f2 T[THEN conjunct1] e sa show ?thesis by (intro conjI)
qed

text \<open>
  Not every save of an empty mapping returns success: where \<^verbatim>\<open>/ex\<close> is a regular
  file, the stat of \<^verbatim>\<open>/ex/ruby/bob\<close> fails with \<open>ENOTDIR\<close>, and \<^verbatim>\<open>Item.Save\<close> returns
  that error.
\<close>

theorem empty_mapping_counterexample:
  "Files item_none = [] \<and> fst (Save item_none fs_exfile) = Some ENOTDIR"
  by code_simp

text \<open>
  C4 (User-Agent on every request). \<^verbatim>\<open>SubmitAssignment\<close> and \<^verbatim>\<open>UnsubmitAssignment\<close>
  set the header \<^verbatim>\<open>User-Agent\<close> to \<^verbatim>\<open>UserAgent\<close>; \<^verbatim>\<open>FetchAssignments\<close> hands its
  request to the client as \<^verbatim>\<open>http.NewRequest\<close> made it, with no header of the
  program's. On the example platform: the GET goes out without the header, the
  POST and the DELETE carry it.
\<close>

theorem fetch_request_has_no_User_Agent:
  "map (\<lambda>req. (Method req, URL req, Header req ''User-Agent''))
       (fst (FetchAssignments env_created config_u ''/api/v1/user/assignments/current''))
     = [(''GET'', ''http://exercism.io/api/v1/user/assignments/current?key=abc'', None)] \<and>
   map (\<lambda>req. (Method req, URL req, Header req ''User-Agent''))
       (fst (SubmitAssignment env_created config_u ''a/b/c.py'' ''print 1''))
     = [(''POST'', ''http://exercism.io/api/v1/user/assignments'',
         Some ''github.com/exercism/cli v1.7.0 (linux/amd64)'')] \<and>
   map (\<lambda>req. (Method req, URL req, Header req ''User-Agent''))
       (fst (UnsubmitAssignment env_created config_u))
     = [(''DELETE'', ''http://exercism.io/api/v1/user/assignments?key=abc'',
         Some ''github.com/exercism/cli v1.7.0 (linux/amd64)'')] \<and>
   UserAgent env_created = ''github.com/exercism/cli v1.7.0 (linux/amd64)''"
  by code_simp

text \<open>
  C5 (test files are refused). For every suffix \<open>ext\<close> of \<^verbatim>\<open>testExtensions\<close>: a
  relative path that ends in \<open>ext\<close> and has something before it is a test for
  \<^verbatim>\<open>IsTest\<close>, while the path that is \<open>ext\<close> and nothing else (the match at index 0)
  is not. When the file named on the command line resolves to such a path under
  the exercise directory, the action prints that it looks like a test and
  returns: nothing is read and no request is sent.
\<close>

theorem test_file_is_refused:
  assumes "(lang, ext) \<in> set testExtensions" and "pre \<noteq> []"
  shows "IsTest (pre @ ext) \<and> \<not> IsTest ext \<and>
         (absolutePath e filename = Inr (Dir c @ [Separator e] @ pre @ ext) \<longrightarrow>
            submit_filename e c filename
              = Inl ''It looks like this is a test, please submit a solution.'') \<and>
         (config_Read e = Inr c \<and> IsAuthenticated e c \<and>
          absolutePath e filename = Inr (Dir c @ [Separator e] @ pre @ ext) \<longrightarrow>
            submit e (filename # args)
              = ([], [''It looks like this is a test, please submit a solution.'']))"
  using IsTest_suffix[OF assms] IsTest_bare[OF assms(1)]
  by (auto simp: submit_def submit_filename_under)

text \<open>The Python suffix: \<^verbatim>\<open>python/bob/bob_test.py\<close> is refused, \<^verbatim>\<open>_test.py\<close> is not a test.\<close>

theorem test_file_is_refused_witness:
  "IsTest ''python/bob/bob_test.py'' \<and> \<not> IsTest ''_test.py'' \<and>
   absolutePath env_created ''/home/u/exercism/python/bob/bob_test.py''
     = Inr (Dir config_u @ [Separator env_created] @ ''python/bob/bob'' @ ''_test.py'') \<and>
   submit_filename env_created config_u ''/home/u/exercism/python/bob/bob_test.py''
     = Inl ''It looks like this is a test, please submit a solution.'' \<and>
   submit env_created [''/home/u/exercism/python/bob/bob_test.py'']
     = ([], [''It looks like this is a test, please submit a solution.''])"
proof -
  have m: "(''python'', ''_test.py'') \<in> set testExtensions"
    by (simp add: testExtensions_def)
  have n: "''python/bob/bob'' \<noteq> []" by simp
  have a: "absolutePath env_created ''/home/u/exercism/python/bob/bob_test.py''
             = Inr (Dir config_u @ [Separator env_created] @ ''python/bob/bob'' @ ''_test.py'')"
    by (simp add: absolutePath_def env_created_def config_u_def)
  have c: "config_Read env_created = Inr config_u"
    by (simp add: env_created_def)
  have i: "IsAuthenticated env_created config_u"
    by (simp add: env_created_def config_u_def)
  note T = test_file_is_refused[OF m n, of env_created "''/home/u/exercism/python/bob/bob_test.py''" config_u "[]"]
  from T[THEN conjunct1] have t1: "IsTest ''python/bob/bob_test.py''" by simp
  note t3 = T[THEN conjunct2, THEN conjunct2, THEN conjunct1, rule_format, OF a]
  note t4 = T[THEN conjunct2, THEN conjunct2, THEN conjunct2, rule_format, OF conjI[OF c conjI[OF i a]]]
  from t1 T[THEN conjunct2, THEN conjunct1] a t3 t4 show ?thesis by (intro conjI)
qed

text \<open>
  C6 (submit by status), as amended. Let the request go out, and the response come
  back with a body. When the body decodes to a \<^verbatim>\<open>submitResponse\<close>, status 201
  returns it, and every other status returns no response but an error made of the
  status code and the decoded response in braces, the server's message last.
  When the body does not decode, status 201 is an error that wraps the decoder's,
  and every other status is the decoder's error as it is, with no status code.
\<close>

theorem SubmitAssignment_by_status:
  assumes "fst (SubmitAssignment e c filePath code) = [req]"
    and "http_Do e req = Inr resp"
    and "ReadAll_Body resp = Inr body"
  shows "snd (SubmitAssignment e c filePath code) =
           (case json_Unmarshal_submitResponse e body of
              Inr r \<Rightarrow>
                if StatusCode resp = 201 then Inr r
                else Inl (''Status: '' @ fmt_d (StatusCode resp) @ '', Error: {'' @ ID_resp r @ '' '' @
                          Status r @ '' '' @ Language_resp r @ '' '' @ Exercise r @ '' '' @
                          SubmissionPath r @ '' '' @ Error r @ ''}'')
            | Inl err \<Rightarrow>
                if StatusCode resp = 201 then Inl (''Error parsing API response: ['' @ err @ '']'')
                else Inl err)"
  using assms
  by (auto simp: SubmitAssignment_def Let_def fmt_v_def split: sum.splits if_splits)

text \<open>
  The two exchanges of the service's examples: 201 with id 42, and 422 with the
  message \<open>bad file\<close>.
\<close>

theorem SubmitAssignment_by_status_witness:
  "snd (SubmitAssignment env_created config_u ''a/b/c.py'' ''print 1'') = Inr response_created \<and>
   ID_resp response_created = ''42'' \<and>
   snd (SubmitAssignment env_rejected config_u ''a/b/c.py'' ''print 1'')
     = Inl ''Status: 422, Error: {     bad file}''"
proof -
  let ?sent1 = "fst (SubmitAssignment env_created config_u ''a/b/c.py'' ''print 1'')"
  let ?sent2 = "fst (SubmitAssignment env_rejected config_u ''a/b/c.py'' ''print 1'')"
  have "length ?sent1 = 1" by code_simp
  then have s1: "?sent1 = [hd ?sent1]" by (rule singleton_hd)
  have "length ?sent2 = 1" by code_simp
  then have s2: "?sent2 = [hd ?sent2]" by (rule singleton_hd)
  have d1: "http_Do env_created (hd ?sent1)
              = Inr \<lparr>StatusCode = 201, ReadAll_Body = Inr ''{\"id\":\"42\",\"status\":\"ok\"}''\<rparr>"
    by code_simp
  have d2: "http_Do env_rejected (hd ?sent2)
              = Inr \<lparr>StatusCode = 422, ReadAll_Body = Inr ''{\"error\":\"bad file\"}''\<rparr>"
    by code_simp
  have u1: "json_Unmarshal_submitResponse env_created ''{\"id\":\"42\",\"status\":\"ok\"}'' = Inr response_created"
    by (simp add: env_created_def)
  have u2: "json_Unmarshal_submitResponse env_rejected ''{\"error\":\"bad file\"}'' = Inr response_rejected"
    by (simp add: env_rejected_def env_created_def)
  have f: "fmt_d 422 = ''422''" by code_simp
  from SubmitAssignment_by_status[OF s1 d1]
  have r1: "snd (SubmitAssignment env_created config_u ''a/b/c.py'' ''print 1'') = Inr response_created"
    by (simp add: u1)
  from SubmitAssignment_by_status[OF s2 d2]
  have r2: "snd (SubmitAssignment env_rejected config_u ''a/b/c.py'' ''print 1'')
              = Inl ''Status: 422, Error: {     bad file}''"
    by (simp add: u2 f response_rejected_def)
  have i: "ID_resp response_created = ''42''" by (simp add: response_created_def)
  from r1 i r2 show ?thesis by (intro conjI)
qed

text \<open>
  Status 502 with a body that is no JSON: the call fails with the decoder's error,
  in which the status code does not occur.
\<close>

theorem SubmitAssignment_counterexample:
  "map (http_Do env_gateway) (fst (SubmitAssignment env_gateway config_u ''a/b/c.py'' ''print 1''))
     = [Inr \<lparr>StatusCode = 502, ReadAll_Body = Inr ''<html>Bad Gateway</html>''\<rparr>] \<and>
   snd (SubmitAssignment env_gateway config_u ''a/b/c.py'' ''print 1'')
     = Inl ''invalid character '<' looking for beginning of value'' \<and>
   \<not> sublist (fmt_d 502) ''invalid character '<' looking for beginning of value''"
  by code_simp

text \<open>
  C7 (outside the project). When the absolute path of the file named on the
  command line does not begin with \<^verbatim>\<open>c.Dir\<close> and the separator, the action prints
  one line that names the absolute path and the exercise directory, and returns
  without sending a request.
\<close>

theorem outside_project_is_refused:
  assumes "config_Read e = Inr c" and "IsAuthenticated e c"
    and "absolutePath e filename = Inr absPath"
    and "\<not> strings_HasPrefix absPath (Dir c @ [Separator e])"
  shows "submit_filename e c filename
           = Inl (absPath @ '' is not under your exercism project path ('' @ Dir c @ [Separator e] @ '')'') \<and>
         submit e (filename # args)
           = ([], [absPath @ '' is not under your exercism project path ('' @ Dir c @ [Separator e] @ '')''])"
  using assms by (simp add: submit_def submit_filename_def Let_def)

text \<open>A file under \<^verbatim>\<open>/tmp\<close>, with the exercises in \<^verbatim>\<open>/home/u/exercism\<close>.\<close>

theorem outside_project_is_refused_witness:
  "absolutePath env_created ''/tmp/bob.py'' = Inr ''/tmp/bob.py'' \<and>
   \<not> strings_HasPrefix ''/tmp/bob.py'' (Dir config_u @ [Separator env_created]) \<and>
   submit env_created [''/tmp/bob.py'']
     = ([], [''/tmp/bob.py is not under your exercism project path (/home/u/exercism/)''])"
proof -
  have c: "config_Read env_created = Inr config_u"
    by (simp add: env_created_def)
  have i: "IsAuthenticated env_created config_u"
    by (simp add: env_created_def config_u_def)
  have a: "absolutePath env_created ''/tmp/bob.py'' = Inr ''/tmp/bob.py''"
    by (simp add: absolutePath_def env_created_def)
  have p: "\<not> strings_HasPrefix ''/tmp/bob.py'' (Dir config_u @ [Separator env_created])"
    by (simp add: strings_HasPrefix_def env_created_def config_u_def)
  have l: "''/tmp/bob.py'' @ '' is not under your exercism project path ('' @ Dir config_u @
             [Separator env_created] @ '')''
           = ''/tmp/bob.py is not under your exercism project path (/home/u/exercism/)''"
    by (simp add: env_created_def config_u_def)
  from outside_project_is_refused[OF c i a p, of "[]", THEN conjunct2]
  have "submit env_created [''/tmp/bob.py'']
     = ([], [''/tmp/bob.py is not under your exercism project path (/home/u/exercism/)''])"
    unfolding l .
  with a p show ?thesis by (intro conjI)
qed

text \<open>
  C8 (round trip of the relative path). When the absolute path is the exercise
  directory, the separator and \<^verbatim>\<open>a/b/c.py\<close>, the path the action goes on with is
  exactly \<^verbatim>\<open>a/b/c.py\<close>; so for every relative path that is not a test file. It is
  the path \<^verbatim>\<open>SubmitAssignment\<close> is called with.
\<close>

theorem relative_path_round_trip:
  "(absolutePath e userPath = Inr (Dir c @ [Separator e] @ ''a/b/c.py'') \<longrightarrow>
      submit_filename e c userPath = Inr (Dir c @ [Separator e] @ ''a/b/c.py'', ''a/b/c.py'')) \<and>
   (absolutePath e userPath = Inr (Dir c @ [Separator e] @ rel) \<and> \<not> IsTest rel \<longrightarrow>
      submit_filename e c userPath = Inr (Dir c @ [Separator e] @ rel, rel)) \<and>
   (config_Read e = Inr c \<and> IsAuthenticated e c \<and>
    absolutePath e userPath = Inr (Dir c @ [Separator e] @ rel) \<and> \<not> IsTest rel \<and>
    ioutil_ReadFile e (Dir c @ [Separator e] @ rel) = Inr code \<longrightarrow>
      fst (submit e (userPath # args)) = fst (SubmitAssignment e c rel code))"
  using not_IsTest_abc
  by (auto simp: submit_filename_under submit_def split: prod.splits sum.splits)

text \<open>The file \<^verbatim>\<open>/home/u/exercism/a/b/c.py\<close>, with the exercises in \<^verbatim>\<open>/home/u/exercism\<close>.\<close>

theorem relative_path_round_trip_witness:
  "absolutePath env_created ''/home/u/exercism/a/b/c.py''
     = Inr (Dir config_u @ [Separator env_created] @ ''a/b/c.py'') \<and>
   \<not> IsTest ''a/b/c.py'' \<and>
   submit_filename env_created config_u ''/home/u/exercism/a/b/c.py''
     = Inr (''/home/u/exercism/a/b/c.py'', ''a/b/c.py'') \<and>
   fst (submit env_created [''/home/u/exercism/a/b/c.py''])
     = fst (SubmitAssignment env_created config_u ''a/b/c.py'' ''print 1'') \<and>
   map Body (fst (submit env_created [''/home/u/exercism/a/b/c.py'']))
     = [Some ''{\"key\":\"abc\",\"code\":\"print 1\",\"path\":\"a/b/c.py\"}'']"
proof -
  have a: "absolutePath env_created ''/home/u/exercism/a/b/c.py''
             = Inr (Dir config_u @ [Separator env_created] @ ''a/b/c.py'')"
    by (simp add: absolutePath_def env_created_def config_u_def)
  have p: "Dir config_u @ [Separator env_created] @ ''a/b/c.py'' = ''/home/u/exercism/a/b/c.py''"
    by (simp add: env_created_def config_u_def)
  have n: "\<not> IsTest ''a/b/c.py''"
    by code_simp
  have c: "config_Read env_created = Inr config_u"
    by (simp add: env_created_def)
  have i: "IsAuthenticated env_created config_u"
    by (simp add: env_created_def config_u_def)
  have r: "ioutil_ReadFile env_created (Dir config_u @ [Separator env_created] @ ''a/b/c.py'') = Inr ''print 1''"
    by (simp add: env_created_def)
  note T = relative_path_round_trip[of env_created "''/home/u/exercism/a/b/c.py''" config_u "''a/b/c.py''" "''print 1''" "[]"]
  from T[THEN conjunct1, rule_format, OF a]
  have f1: "submit_filename env_created config_u ''/home/u/exercism/a/b/c.py''
          = Inr (''/home/u/exercism/a/b/c.py'', ''a/b/c.py'')"
    unfolding p .
  from T[THEN conjunct2, THEN conjunct1, rule_format, OF conjI[OF a n]]
  have f2: "submit_filename env_created config_u ''/home/u/exercism/a/b/c.py''
          = Inr (''/home/u/exercism/a/b/c.py'', ''a/b/c.py'')"
    unfolding p .
  from T[THEN conjunct2, THEN conjunct2, rule_format, OF conjI[OF c conjI[OF i conjI[OF a conjI[OF n r]]]]]
  have f3: "fst (submit env_created [''/home/u/exercism/a/b/c.py''])
     = fst (SubmitAssignment env_created config_u ''a/b/c.py'' ''print 1'')" .
  have b: "map Body (fst (SubmitAssignment env_created config_u ''a/b/c.py'' ''print 1''))
     = [Some ''{\"key\":\"abc\",\"code\":\"print 1\",\"path\":\"a/b/c.py\"}'']"
    by code_simp
  from a n f2 f3 b[folded f3] show ?thesis by (intro conjI)
qed

end
